theory Spec2Isabelle
  imports Main
begin

section \<open>JavaScript values used by the chat client\<close>

text \<open>
  A JavaScript string is modelled as a \<^typ>\<open>string\<close> whose characters stand for the
  code units of the same number (code units below 256).  A field that may be
  \<^verbatim>\<open>undefined\<close> or \<^verbatim>\<open>null\<close> is an option; \<open>truthy\<close> is the test that
  \<^verbatim>\<open>if (x)\<close> and \<^verbatim>\<open>x || d\<close> perform on such a field.
\<close>

fun truthy :: "string option \<Rightarrow> bool" where
  "truthy None = False"
| "truthy (Some s) = (s \<noteq> [])"

fun str_or :: "string option \<Rightarrow> string \<Rightarrow> string" where
  "str_or None d = d"
| "str_or (Some s) d = (if s = [] then d else s)"

text \<open>
  Where the code tells \<^verbatim>\<open>undefined\<close> from \<^verbatim>\<open>null\<close> the three cases are kept
  apart: the \<^verbatim>\<open>id\<close> of a tool call travels from the stream to
  \<^verbatim>\<open>setToolResult\<close>, where it is compared with \<^verbatim>\<open>===\<close>, and a delta's content is
  tested with \<^verbatim>\<open>!== undefined\<close>.  \<open>id_or_null\<close> is \<^verbatim>\<open>id || null\<close>.
\<close>

datatype js_string = Undefined | Null | Str string

fun js_truthy :: "js_string \<Rightarrow> bool" where
  "js_truthy (Str s) = (s \<noteq> [])"
| "js_truthy _ = False"

fun id_or_null :: "js_string \<Rightarrow> string option" where
  "id_or_null (Str s) = (if s = [] then None else Some s)"
| "id_or_null _ = None"

text \<open>
  \<^verbatim>\<open>String.prototype.trim\<close> removes white space and line terminators from both ends.
  Below code unit 256 these are TAB, LF, VT, FF, CR, SPACE and NBSP.
\<close>

definition js_ws :: "char \<Rightarrow> bool" where
  "js_ws c = (c = CHR 0x09 \<or> c = CHR 0x0A \<or> c = CHR 0x0B \<or> c = CHR 0x0C \<or>
              c = CHR 0x0D \<or> c = CHR 0x20 \<or> c = CHR 0xA0)"

definition trim :: "string \<Rightarrow> string" where
  "trim s = rev (dropWhile js_ws (rev (dropWhile js_ws s)))"

section \<open>PartsBuilder (partsBuilder.js, src/unnamed/part_012)\<close>

text \<open>
  A tool entry as \<^verbatim>\<open>addOrUpdateTool\<close> creates it:
  \<^verbatim>\<open>{ index, id, type, function: { name, arguments } }\<close>, with \<^verbatim>\<open>result\<close> absent
  until \<^verbatim>\<open>setToolResult\<close> stores one.
\<close>

record tool =
  t_index :: int
  t_id :: "string option"
  t_type :: string
  t_name :: string
  t_arguments :: string
  t_result :: "string option"

text \<open>
  One element of \<^verbatim>\<open>delta.tool_calls\<close> (the \<^verbatim>\<open>toolData\<close> argument):
  \<^verbatim>\<open>{ index, id?, type?, function?: { name?, arguments? } }\<close>.
\<close>

record tool_delta =
  d_index :: int
  d_id :: js_string
  d_type :: "string option"
  d_name :: "string option"
  d_arguments :: "string option"

record image =
  img_url :: string
  img_revised_prompt :: "string option"

text \<open>An image object of the API: \<^verbatim>\<open>{ image_url?: { url }, url?, revised_prompt? }\<close>.\<close>

record api_image =
  ai_image_url_url :: "string option"
  ai_url :: "string option"
  ai_revised_prompt :: "string option"

datatype part =
    Content string
  | Reasoning string
  | ToolGroup string "tool list"
  | Image "image list"

datatype part_type = TContent | TReasoning | TToolGroup | TImage

fun is_type :: "part_type \<Rightarrow> part \<Rightarrow> bool" where
  "is_type TContent (Content _) = True"
| "is_type TReasoning (Reasoning _) = True"
| "is_type TToolGroup (ToolGroup _ _) = True"
| "is_type TImage (Image _) = True"
| "is_type _ _ = False"

text \<open>\<^verbatim>\<open>getLastPart\<close>: the last part, or \<^verbatim>\<open>null\<close> for an empty array.\<close>

fun getLastPart :: "part list \<Rightarrow> part option" where
  "getLastPart [] = None"
| "getLastPart ps = Some (last ps)"

text \<open>
  \<^verbatim>\<open>getOrCreatePart(type, toolType)\<close> returns a reference to the last part, after
  pushing a new empty part when the last one cannot be reused.  The model returns the
  parts array; the returned part is its last element, which the callers then mutate
  through \<open>update_last\<close>.
\<close>

fun update_last :: "('a \<Rightarrow> 'a) \<Rightarrow> 'a list \<Rightarrow> 'a list" where
  "update_last f [] = []"
| "update_last f [x] = [f x]"
| "update_last f (x # y # ys) = x # update_last f (y # ys)"

fun reusable :: "part_type \<Rightarrow> string \<Rightarrow> part option \<Rightarrow> bool" where
  "reusable TToolGroup toolType (Some (ToolGroup k _)) = (k = toolType)"
| "reusable TToolGroup toolType _ = False"
| "reusable ty toolType (Some p) = is_type ty p"
| "reusable ty toolType None = False"

fun new_part :: "part_type \<Rightarrow> string \<Rightarrow> part" where
  "new_part TToolGroup toolType = ToolGroup toolType []"
| "new_part TImage toolType = Image []"
| "new_part TContent toolType = Content []"
| "new_part TReasoning toolType = Reasoning []"

definition getOrCreatePart :: "part_type \<Rightarrow> string \<Rightarrow> part list \<Rightarrow> part list" where
  "getOrCreatePart ty toolType ps =
     (if reusable ty toolType (getLastPart ps) then ps else ps @ [new_part ty toolType])"

fun add_to_content :: "string \<Rightarrow> part \<Rightarrow> part" where
  "add_to_content text (Content c) = Content (c @ text)"
| "add_to_content text (Reasoning c) = Reasoning (c @ text)"
| "add_to_content text p = p"

definition appendContent :: "string \<Rightarrow> part list \<Rightarrow> part list" where
  "appendContent text ps =
     (if text = [] then ps
      else update_last (add_to_content text) (getOrCreatePart TContent [] ps))"

fun merge_reasoning :: "string \<Rightarrow> part \<Rightarrow> part" where
  "merge_reasoning text (Reasoning c) =
     (if trim c = [] \<and> trim text \<noteq> [] then Reasoning text else Reasoning (c @ text))"
| "merge_reasoning text (Content c) =
     (if trim c = [] \<and> trim text \<noteq> [] then Content text else Content (c @ text))"
| "merge_reasoning text p = p"

definition appendReasoning :: "string \<Rightarrow> part list \<Rightarrow> part list" where
  "appendReasoning text ps =
     (if text = [] \<or> trim text = ''None'' then ps
      else update_last (merge_reasoning text) (getOrCreatePart TReasoning [] ps))"

fun push_image :: "image \<Rightarrow> part \<Rightarrow> part" where
  "push_image i (Image is) = Image (is @ [i])"
| "push_image i p = p"

definition addImage :: "string \<Rightarrow> string option \<Rightarrow> part list \<Rightarrow> part list" where
  "addImage url revisedPrompt ps =
     (if url = [] then ps
      else update_last (push_image \<lparr>img_url = url, img_revised_prompt = revisedPrompt\<rparr>)
             (getOrCreatePart TImage [] ps))"

definition processImage :: "api_image \<Rightarrow> part list \<Rightarrow> part list" where
  "processImage im ps =
     (let url = (if truthy (ai_image_url_url im) then ai_image_url_url im else ai_url im);
          revisedPrompt = (if truthy (ai_revised_prompt im) then ai_revised_prompt im else None)
      in if truthy url then addImage (the url) revisedPrompt ps else ps)"

text \<open>The update branch of \<^verbatim>\<open>addOrUpdateTool\<close>, applied to the tool that was found.\<close>

definition update_tool :: "tool_delta \<Rightarrow> tool \<Rightarrow> tool" where
  "update_tool d t =
     (let t1 = (if truthy (d_name d) then t\<lparr>t_name := the (d_name d)\<rparr> else t);
          t2 = (if truthy (d_arguments d)
                then t1\<lparr>t_arguments := t_arguments t1 @ the (d_arguments d)\<rparr> else t1);
          t3 = (if js_truthy (d_id d) then t2\<lparr>t_id := id_or_null (d_id d)\<rparr> else t2);
          t4 = (if truthy (d_type d) then t3\<lparr>t_type := the (d_type d)\<rparr> else t3)
      in t4)"

definition new_tool :: "tool_delta \<Rightarrow> tool" where
  "new_tool d =
     \<lparr>t_index = d_index d,
      t_id = id_or_null (d_id d),
      t_type = str_or (d_type d) ''function'',
      t_name = str_or (d_name d) [],
      t_arguments = str_or (d_arguments d) [],
      t_result = None\<rparr>"

text \<open>
  \<^verbatim>\<open>part.tools.find(t => t.index === toolData.index)\<close> picks the first tool with the
  index; that one is updated in place, and a delta with a new index is pushed at the end.
\<close>

fun upsert_tool :: "tool_delta \<Rightarrow> tool list \<Rightarrow> tool list" where
  "upsert_tool d [] = [new_tool d]"
| "upsert_tool d (t # ts) =
     (if t_index t = d_index d then update_tool d t # ts else t # upsert_tool d ts)"

fun upsert_in_part :: "tool_delta \<Rightarrow> part \<Rightarrow> part" where
  "upsert_in_part d (ToolGroup k ts) = ToolGroup k (upsert_tool d ts)"
| "upsert_in_part d p = p"

definition addOrUpdateTool :: "string \<Rightarrow> tool_delta \<Rightarrow> part list \<Rightarrow> part list" where
  "addOrUpdateTool toolType toolData ps =
     update_last (upsert_in_part toolData) (getOrCreatePart TToolGroup toolType ps)"

text \<open>
  \<^verbatim>\<open>t.id === toolId\<close>: a stored id is \<^verbatim>\<open>null\<close> or a string, so \<^verbatim>\<open>undefined\<close>
  equals no stored id, \<^verbatim>\<open>null\<close> equals a stored \<^verbatim>\<open>null\<close>, and a string equals the
  same string.
\<close>

fun id_matches :: "js_string \<Rightarrow> tool \<Rightarrow> bool" where
  "id_matches Undefined t = False"
| "id_matches Null t = (t_id t = None)"
| "id_matches (Str s) t = (t_id t = Some s)"

fun set_first_result :: "js_string \<Rightarrow> string \<Rightarrow> tool list \<Rightarrow> tool list" where
  "set_first_result i r [] = []"
| "set_first_result i r (t # ts) =
     (if id_matches i t then t\<lparr>t_result := Some r\<rparr> # ts else t # set_first_result i r ts)"

text \<open>\<^verbatim>\<open>setToolResult\<close> returns whether a tool was found, and the parts after the call.\<close>

fun setToolResult :: "js_string \<Rightarrow> string \<Rightarrow> part list \<Rightarrow> bool \<times> part list" where
  "setToolResult i r [] = (False, [])"
| "setToolResult i r (ToolGroup k ts # ps) =
     (if list_ex (id_matches i) ts then (True, ToolGroup k (set_first_result i r ts) # ps)
      else (let (found, ps') = setToolResult i r ps in (found, ToolGroup k ts # ps')))"
| "setToolResult i r (p # ps) =
     (let (found, ps') = setToolResult i r ps in (found, p # ps'))"

fun part_tools :: "part \<Rightarrow> tool list" where
  "part_tools (ToolGroup k ts) = ts"
| "part_tools p = []"

definition getAllTools :: "part list \<Rightarrow> tool list" where
  "getAllTools ps = concat (map part_tools (filter (is_type TToolGroup) ps))"

definition hasContentPart :: "part list \<Rightarrow> bool" where
  "hasContentPart ps = list_ex (is_type TContent) ps"

definition hasImagePart :: "part list \<Rightarrow> bool" where
  "hasImagePart ps = list_ex (is_type TImage) ps"

definition ensureContentPartFirst :: "string \<Rightarrow> part list \<Rightarrow> part list" where
  "ensureContentPartFirst content ps =
     (if hasImagePart ps \<and> \<not> hasContentPart ps \<and> content \<noteq> []
      then Content content # ps else ps)"


section \<open>Applying a chunk (the loop body of sendMessage, src/unnamed/part_009)\<close>

record usage =
  completion_tokens :: "nat option"
  total_tokens :: "nat option"
  prompt_tokens :: "nat option"

record error_details =
  ed_name :: string
  ed_message :: "string option"

text \<open>
  A chunk as the stream generator yields it.  An absent \<^verbatim>\<open>tool_calls\<close> or
  \<^verbatim>\<open>images\<close> array is the empty list: the consumer treats both alike.
\<close>

record chunk =
  c_content :: "string option"
  c_reasoning :: "string option"
  c_tool_calls :: "tool_delta list"
  c_images :: "api_image list"
  c_tool_result :: "(js_string \<times> string) option"
  c_usage :: "usage option"
  c_annotations :: "string option"
  c_error :: "error_details option"

definition empty_chunk :: chunk where
  "empty_chunk =
     \<lparr>c_content = None, c_reasoning = None, c_tool_calls = [], c_images = [],
      c_tool_result = None, c_usage = None, c_annotations = None, c_error = None\<rparr>"

text \<open>The calls that one chunk makes on the PartsBuilder, in the order of the loop body.\<close>

definition apply_content :: "chunk \<Rightarrow> part list \<Rightarrow> part list" where
  "apply_content c ps =
     (if truthy (c_content c) then appendContent (the (c_content c)) ps else ps)"

definition apply_images :: "chunk \<Rightarrow> part list \<Rightarrow> part list" where
  "apply_images c ps = fold processImage (c_images c) ps"

definition apply_reasoning :: "chunk \<Rightarrow> part list \<Rightarrow> part list" where
  "apply_reasoning c ps =
     (if truthy (c_reasoning c) \<and> trim (the (c_reasoning c)) \<noteq> ''None''
      then appendReasoning (the (c_reasoning c)) ps else ps)"

definition apply_tool_calls :: "chunk \<Rightarrow> part list \<Rightarrow> part list" where
  "apply_tool_calls c ps =
     fold (\<lambda>tool. addOrUpdateTool (str_or (d_type tool) ''function'') tool) (c_tool_calls c) ps"

definition apply_tool_result :: "chunk \<Rightarrow> part list \<Rightarrow> part list" where
  "apply_tool_result c ps =
     (case c_tool_result c of None \<Rightarrow> ps | Some (i, r) \<Rightarrow> snd (setToolResult i r ps))"

definition apply_chunk :: "chunk \<Rightarrow> part list \<Rightarrow> part list" where
  "apply_chunk c ps =
     apply_tool_result c (apply_tool_calls c (apply_reasoning c (apply_images c (apply_content c ps))))"

section \<open>The grouping invariant\<close>

fun mergeable :: "part \<Rightarrow> part \<Rightarrow> bool" where
  "mergeable (Content _) (Content _) = True"
| "mergeable (Image _) (Image _) = True"
| "mergeable (ToolGroup k _) (ToolGroup k' _) = (k = k')"
| "mergeable _ _ = False"

fun no_adjacent_mergeable :: "part list \<Rightarrow> bool" where
  "no_adjacent_mergeable (p # q # ps) = (\<not> mergeable p q \<and> no_adjacent_mergeable (q # ps))"
| "no_adjacent_mergeable _ = True"

text \<open>What grouping looks at: the type of a part, and the tool type of a tool group.\<close>

fun kind :: "part \<Rightarrow> part_type \<times> string" where
  "kind (Content _) = (TContent, [])"
| "kind (Reasoning _) = (TReasoning, [])"
| "kind (ToolGroup k _) = (TToolGroup, k)"
| "kind (Image _) = (TImage, [])"

fun kinds_ok :: "(part_type \<times> string) list \<Rightarrow> bool" where
  "kinds_ok (a # b # ks) = ((a \<noteq> b \<or> fst a = TReasoning) \<and> kinds_ok (b # ks))"
| "kinds_ok _ = True"

lemma mergeable_kind: "mergeable p q = (kind p = kind q \<and> fst (kind p) \<noteq> TReasoning)"
  by (cases p; cases q) auto

lemma no_adjacent_kinds: "no_adjacent_mergeable ps = kinds_ok (map kind ps)"
  by (induction ps rule: no_adjacent_mergeable.induct) (auto simp: mergeable_kind)

lemma kinds_update_last:
  assumes "\<And>p. kind (f p) = kind p"
  shows "map kind (update_last f ps) = map kind ps"
proof (induction ps)
  case Nil
  then show ?case by simp
next
  case (Cons p ps)
  then show ?case by (cases ps) (simp_all add: assms)
qed

lemma kinds_ok_snoc:
  "kinds_ok (ks @ [k]) = (kinds_ok ks \<and> (ks = [] \<or> last ks \<noteq> k \<or> fst k = TReasoning))"
proof (induction ks)
  case Nil
  then show ?case by simp
next
  case (Cons a ks)
  then show ?case by (cases ks) auto
qed

lemma kind_add_to_content [simp]: "kind (add_to_content t p) = kind p"
  by (cases p) auto

lemma kind_merge_reasoning [simp]: "kind (merge_reasoning t p) = kind p"
  by (cases p) auto

lemma kind_push_image [simp]: "kind (push_image i p) = kind p"
  by (cases p) auto

lemma kind_upsert_in_part [simp]: "kind (upsert_in_part d p) = kind p"
  by (cases p) auto

lemma kind_new_part: "kind (new_part ty k) = (ty, if ty = TToolGroup then k else [])"
  by (cases ty) auto

lemma reusable_kind:
  "reusable ty k (getLastPart ps) =
     (ps \<noteq> [] \<and> kind (last ps) = (ty, if ty = TToolGroup then k else []))"
proof (cases ps)
  case Nil
  then show ?thesis by (cases ty) auto
next
  case (Cons a as)
  then have "getLastPart ps = Some (last ps)" by simp
  then show ?thesis using Cons by (cases ty; cases "last ps") auto
qed

lemma getOrCreatePart_ok:
  assumes "no_adjacent_mergeable ps"
  shows "no_adjacent_mergeable (getOrCreatePart ty k ps)"
proof (cases "ps = []")
  case True
  then show ?thesis by (simp add: getOrCreatePart_def)
next
  case False
  then show ?thesis
    using assms
    by (auto simp: getOrCreatePart_def no_adjacent_kinds kinds_ok_snoc reusable_kind
        kind_new_part last_map)
qed

lemma appendContent_ok: "no_adjacent_mergeable ps \<Longrightarrow> no_adjacent_mergeable (appendContent t ps)"
  using getOrCreatePart_ok [of ps TContent "[]"]
  by (simp add: appendContent_def no_adjacent_kinds kinds_update_last)

lemma appendReasoning_ok:
  "no_adjacent_mergeable ps \<Longrightarrow> no_adjacent_mergeable (appendReasoning t ps)"
  using getOrCreatePart_ok [of ps TReasoning "[]"]
  by (simp add: appendReasoning_def no_adjacent_kinds kinds_update_last)

lemma addImage_ok: "no_adjacent_mergeable ps \<Longrightarrow> no_adjacent_mergeable (addImage u r ps)"
  using getOrCreatePart_ok [of ps TImage "[]"]
  by (simp add: addImage_def no_adjacent_kinds kinds_update_last)

lemma processImage_ok: "no_adjacent_mergeable ps \<Longrightarrow> no_adjacent_mergeable (processImage im ps)"
  by (simp add: processImage_def Let_def addImage_ok)

lemma addOrUpdateTool_ok:
  "no_adjacent_mergeable ps \<Longrightarrow> no_adjacent_mergeable (addOrUpdateTool k d ps)"
  using getOrCreatePart_ok [of ps TToolGroup k]
  by (simp add: addOrUpdateTool_def no_adjacent_kinds kinds_update_last)

lemma kinds_setToolResult: "map kind (snd (setToolResult i r ps)) = map kind ps"
  by (induction i r ps rule: setToolResult.induct) (auto split: prod.splits)

lemma fold_ok:
  assumes "\<And>x s. P s \<Longrightarrow> P (f x s)" and "P s"
  shows "P (fold f xs s)"
  using assms(2) by (induction xs arbitrary: s) (simp_all add: assms(1))

lemma apply_chunk_ok:
  assumes "no_adjacent_mergeable ps"
  shows "no_adjacent_mergeable (apply_chunk c ps)"
proof -
  have 1: "no_adjacent_mergeable (apply_content c ps)"
    using assms by (simp add: apply_content_def appendContent_ok)
  have 2: "no_adjacent_mergeable (apply_images c (apply_content c ps))"
    unfolding apply_images_def by (rule fold_ok) (simp_all add: processImage_ok 1)
  have 3: "no_adjacent_mergeable (apply_reasoning c (apply_images c (apply_content c ps)))"
    using 2 by (simp add: apply_reasoning_def appendReasoning_ok)
  have 4: "no_adjacent_mergeable
             (apply_tool_calls c (apply_reasoning c (apply_images c (apply_content c ps))))"
    unfolding apply_tool_calls_def by (rule fold_ok) (simp_all add: addOrUpdateTool_ok 3)
  show ?thesis
    using 4
    by (simp add: apply_chunk_def apply_tool_result_def no_adjacent_kinds kinds_setToolResult
        split: option.splits prod.splits)
qed

lemma ensureContentPartFirst_ok:
  assumes "no_adjacent_mergeable ps"
  shows "no_adjacent_mergeable (ensureContentPartFirst content ps)"
proof (cases ps)
  case Nil
  then show ?thesis by (simp add: ensureContentPartFirst_def)
next
  case (Cons q qs)
  have "\<not> mergeable (Content content) q" if "\<not> hasContentPart ps"
    using that Cons by (cases q) (auto simp: hasContentPart_def)
  then show ?thesis
    using assms Cons by (auto simp: ensureContentPartFirst_def)
qed

text \<open>
  C1.  The builder starts with no parts.  After any sequence of chunks has been applied
  (hence after each chunk of a stream, every prefix being such a sequence) the parts hold
  no two adjacent content parts, no two adjacent image parts and no two adjacent tool
  groups of the same tool type; the same is true after the end-of-turn call of
  ensureContentPartFirst, whatever flat content string it is given.
\<close>

theorem parts_never_adjacent_mergeable:
  "no_adjacent_mergeable (fold apply_chunk cs []) \<and>
   no_adjacent_mergeable (ensureContentPartFirst content (fold apply_chunk cs []))"
proof -
  have "no_adjacent_mergeable (fold apply_chunk cs [])"
    by (rule fold_ok) (simp_all add: apply_chunk_ok)
  then show ?thesis by (simp add: ensureContentPartFirst_ok)
qed

section \<open>Reasoning fragments\<close>

text \<open>A chunk that carries only a reasoning fragment.\<close>

definition reasoning_chunk :: "string \<Rightarrow> chunk" where
  "reasoning_chunk text = empty_chunk\<lparr>c_reasoning := Some text\<rparr>"

lemma update_last_snoc [simp]: "update_last f (xs @ [x]) = xs @ [f x]"
  by (induction f xs rule: update_last.induct) auto

lemma getLastPart_snoc [simp]: "getLastPart (ps @ [p]) = Some p"
  by (cases ps) auto

lemma apply_reasoning_chunk:
  "apply_chunk (reasoning_chunk text) ps = appendReasoning text ps"
  by (auto simp: apply_chunk_def reasoning_chunk_def empty_chunk_def apply_content_def
      apply_images_def apply_reasoning_def apply_tool_calls_def apply_tool_result_def
      appendReasoning_def)

lemma trim_nonempty: "trim text \<noteq> [] \<Longrightarrow> text \<noteq> []"
  by (auto simp: trim_def)

lemma reasoning_filler_example:
  "fold apply_chunk (map reasoning_chunk ['''', ''  '', ''hello'']) [] = [Reasoning ''hello'']"
  by (simp add: apply_reasoning_chunk appendReasoning_def trim_def js_ws_def getOrCreatePart_def)

text \<open>
  C7, as the claim states it, fails: a fragment that is not white space and is not the
  literal "None", but trims to "None", does not replace the white-space filler.  With the
  last part a reasoning part holding two spaces, the fragment " None" leaves the part
  unchanged.
\<close>

theorem reasoning_padded_None_counterexample:
  "trim ''  '' = [] \<and> trim '' None'' \<noteq> [] \<and> '' None'' \<noteq> ''None'' \<and>
   apply_chunk (reasoning_chunk '' None'') [Reasoning ''  ''] = [Reasoning ''  ''] \<and>
   apply_chunk (reasoning_chunk '' None'') [Reasoning ''  ''] \<noteq> [Reasoning '' None'']"
  by (simp add: apply_reasoning_chunk appendReasoning_def trim_def js_ws_def)

text \<open>
  C7, amended.  A reasoning fragment whose trimmed text is "None" (the literal "None"
  included) is ignored.  A fragment that is not white space and does not trim to "None",
  applied when the last part is a reasoning part whose text is entirely white space,
  replaces that text.  The fragments "", two spaces, "hello" applied in order to a new
  builder give the single reasoning part "hello".
\<close>

theorem reasoning_replace_or_ignore:
  "(trim text = ''None'' \<longrightarrow> apply_chunk (reasoning_chunk text) ps = ps) \<and>
   (trim c = [] \<and> trim text \<noteq> [] \<and> trim text \<noteq> ''None'' \<longrightarrow>
      apply_chunk (reasoning_chunk text) (ps @ [Reasoning c]) = ps @ [Reasoning text]) \<and>
   fold apply_chunk (map reasoning_chunk ['''', ''  '', ''hello'']) [] = [Reasoning ''hello'']"
proof -
  have ignored: "trim text = ''None'' \<longrightarrow> apply_chunk (reasoning_chunk text) ps = ps"
    by (simp add: apply_reasoning_chunk appendReasoning_def)
  have replaced: "trim c = [] \<and> trim text \<noteq> [] \<and> trim text \<noteq> ''None'' \<longrightarrow>
      apply_chunk (reasoning_chunk text) (ps @ [Reasoning c]) = ps @ [Reasoning text]"
    using trim_nonempty [of "text"]
    by (simp add: apply_reasoning_chunk appendReasoning_def getOrCreatePart_def)
  from ignored replaced reasoning_filler_example show ?thesis by blast
qed

theorem reasoning_replace_or_ignore_witness:
  "apply_chunk (reasoning_chunk ''None'') [Content ''a''] = [Content ''a''] \<and>
   apply_chunk (reasoning_chunk ''hello'') [Reasoning ''  ''] = [Reasoning ''hello'']"
  using reasoning_replace_or_ignore [of "''None''" "[Content ''a'']"]
    reasoning_replace_or_ignore [of "''hello''" "[]" "''  ''"]
  by (simp add: trim_def js_ws_def)

section \<open>The tool-call accumulator of the stream generator\<close>

text \<open>An entry of \<^verbatim>\<open>toolCallAccumulator\<close>: \<^verbatim>\<open>{ id, type, function: { name, arguments } }\<close>.\<close>

record acc_tool =
  a_id :: js_string
  a_type :: string
  a_name :: string
  a_arguments :: string

text \<open>
  The accumulator is an object keyed by the delta's index.  It is kept as an association
  list in insertion order; \<^verbatim>\<open>Object.values\<close> lists the entries with an array-index key
  (0 up to \<open>2^32 - 2\<close>) first, in ascending order, then the others in insertion order.
\<close>

type_synonym accumulator = "(int \<times> acc_tool) list"

fun acc_store :: "int \<Rightarrow> acc_tool \<Rightarrow> accumulator \<Rightarrow> accumulator" where
  "acc_store k v [] = [(k, v)]"
| "acc_store k v ((k', v') # kvs) =
     (if k = k' then (k, v) # kvs else (k', v') # acc_store k v kvs)"

definition is_array_index :: "int \<Rightarrow> bool" where
  "is_array_index k = (0 \<le> k \<and> k < 4294967295)"

fun insert_by_key :: "int \<times> acc_tool \<Rightarrow> accumulator \<Rightarrow> accumulator" where
  "insert_by_key kv [] = [kv]"
| "insert_by_key kv (kv' # kvs) =
     (if fst kv \<le> fst kv' then kv # kv' # kvs else kv' # insert_by_key kv kvs)"

definition object_values :: "accumulator \<Rightarrow> acc_tool list" where
  "object_values acc =
     map snd (foldr insert_by_key (filter (\<lambda>kv. is_array_index (fst kv)) acc) []) @
     map snd (filter (\<lambda>kv. \<not> is_array_index (fst kv)) acc)"

text \<open>The three updates that every delta makes on its entry, new or found.\<close>

definition merge_delta :: "tool_delta \<Rightarrow> acc_tool \<Rightarrow> acc_tool" where
  "merge_delta d existing =
     (let e1 = (if js_truthy (d_id d) then existing\<lparr>a_id := d_id d\<rparr> else existing);
          e2 = (if truthy (d_name d) then e1\<lparr>a_name := the (d_name d)\<rparr> else e1);
          e3 = (if truthy (d_arguments d)
                then e2\<lparr>a_arguments := a_arguments e2 @ the (d_arguments d)\<rparr> else e2)
      in e3)"

definition accumulate :: "tool_delta \<Rightarrow> accumulator \<Rightarrow> accumulator" where
  "accumulate d acc =
     acc_store (d_index d)
       (merge_delta d
          (case map_of acc (d_index d) of
             Some e \<Rightarrow> e
           | None \<Rightarrow> \<lparr>a_id = d_id d, a_type = str_or (d_type d) ''function'',
                      a_name = [], a_arguments = []\<rparr>))
       acc"

section \<open>Tool calls and tool results\<close>

text \<open>Chunks that carry one tool-call delta, or one tool result.\<close>

definition tool_chunk :: "tool_delta \<Rightarrow> chunk" where
  "tool_chunk d = empty_chunk\<lparr>c_tool_calls := [d]\<rparr>"

definition tool_result_chunk :: "js_string \<Rightarrow> string \<Rightarrow> chunk" where
  "tool_result_chunk i r = empty_chunk\<lparr>c_tool_result := Some (i, r)\<rparr>"

definition delta0 :: tool_delta where
  "delta0 = \<lparr>d_index = 0, d_id = Undefined, d_type = None, d_name = None, d_arguments = None\<rparr>"




text \<open>The indexes of a list in the order of their first arrival.\<close>

fun arrival_order :: "int list \<Rightarrow> int list" where
  "arrival_order [] = []"
| "arrival_order (x # xs) = x # filter (\<lambda>y. y \<noteq> x) (arrival_order xs)"

lemma apply_tool_chunk:
  "apply_chunk (tool_chunk d) ps = addOrUpdateTool (str_or (d_type d) ''function'') d ps"
  by (simp add: apply_chunk_def tool_chunk_def empty_chunk_def apply_content_def
      apply_images_def apply_reasoning_def apply_tool_calls_def apply_tool_result_def)

lemma apply_tool_result_chunk:
  "apply_chunk (tool_result_chunk i r) ps = snd (setToolResult i r ps)"
  by (simp add: apply_chunk_def tool_result_chunk_def empty_chunk_def apply_content_def
      apply_images_def apply_reasoning_def apply_tool_calls_def apply_tool_result_def)

lemma getAllTools_Cons: "getAllTools (p # ps) = part_tools p @ getAllTools ps"
  by (cases p) (simp_all add: getAllTools_def)

lemma getAllTools_append: "getAllTools (ps @ qs) = getAllTools ps @ getAllTools qs"
  by (simp add: getAllTools_def)

subsection \<open>Accumulating the deltas of one tool call\<close>






lemma t_index_update_tool [simp]: "t_index (update_tool d t) = t_index t"
  by (simp add: update_tool_def Let_def)




lemma upsert_tool_new:
  assumes "d_index d \<notin> t_index ` set ts"
  shows "upsert_tool d ts = ts @ [new_tool d]"
  using assms by (induction ts) auto

lemma getOrCreatePart_same [simp]:
  "getOrCreatePart TToolGroup k (qs @ [ToolGroup k ts]) = qs @ [ToolGroup k ts]"
  by (simp add: getOrCreatePart_def)



















subsection \<open>The flat list of tools\<close>

lemma indexes_upsert_tool:
  "map t_index (upsert_tool d ts) =
     map t_index ts @ (if d_index d \<in> t_index ` set ts then [] else [d_index d])"
  by (induction ts) (auto simp: new_tool_def)

lemma filter_not_in_insert:
  "filter (\<lambda>i. i \<notin> S) (filter (\<lambda>y. y \<noteq> x) ys) = filter (\<lambda>i. i \<notin> insert x S) ys"
  by (induction ys) auto

lemma fold_same_group:
  assumes "\<forall>d \<in> set ds. str_or (d_type d) ''function'' = k"
  shows "\<exists>ts'. fold apply_chunk (map tool_chunk ds) (qs @ [ToolGroup k ts]) =
                  qs @ [ToolGroup k ts'] \<and>
           map t_index ts' =
             map t_index ts @
             filter (\<lambda>i. i \<notin> t_index ` set ts) (arrival_order (map d_index ds))"
  using assms
proof (induction ds arbitrary: ts)
  case Nil
  then show ?case by simp
next
  case (Cons d ds)
  let ?ts = "upsert_tool d ts"
  have step: "apply_chunk (tool_chunk d) (qs @ [ToolGroup k ts]) = qs @ [ToolGroup k ?ts]"
    using Cons.prems by (simp add: apply_tool_chunk addOrUpdateTool_def)
  obtain ts' where ts':
    "fold apply_chunk (map tool_chunk ds) (qs @ [ToolGroup k ?ts]) = qs @ [ToolGroup k ts']"
    "map t_index ts' =
       map t_index ?ts @
       filter (\<lambda>i. i \<notin> t_index ` set ?ts) (arrival_order (map d_index ds))"
    using Cons.IH [of ?ts] Cons.prems by auto
  have set_eq: "t_index ` set ?ts = insert (d_index d) (t_index ` set ts)"
    using indexes_upsert_tool [of d ts, THEN arg_cong, of set] by (auto split: if_splits)
  have "map t_index ts' =
          map t_index ts @
          filter (\<lambda>i. i \<notin> t_index ` set ts) (arrival_order (map d_index (d # ds)))"
    unfolding ts'(2) set_eq
    by (simp add: indexes_upsert_tool filter_not_in_insert insert_absorb)
  then show ?case using step ts'(1) by simp
qed

text \<open>
  C6, as the claim states it, fails: nothing sorts the tools.  Deltas that arrive with
  the index 1 and then the index 0 leave the flat list in that order.
\<close>

theorem tools_not_sorted_counterexample:
  "map t_index (getAllTools (fold apply_chunk
      (map tool_chunk [delta0\<lparr>d_index := 1\<rparr>, delta0\<lparr>d_index := 0\<rparr>]) [])) = [1, 0] \<and>
   \<not> sorted (map t_index (getAllTools (fold apply_chunk
      (map tool_chunk [delta0\<lparr>d_index := 1\<rparr>, delta0\<lparr>d_index := 0\<rparr>]) [])))"
  by (simp add: apply_tool_chunk addOrUpdateTool_def getOrCreatePart_def delta0_def
      update_tool_def new_tool_def getAllTools_def)

text \<open>
  C6, amended.  getAllTools returns the tools of all tool groups flattened in part order
  and, within a tool group, in the order in which the tools were created: when deltas of
  one tool type open a new group, the indexes of the flat list are those of the earlier
  parts followed by the indexes of the deltas in the order of their first arrival
  (which need not be ascending).
\<close>

theorem tools_in_creation_order:
  assumes "\<forall>d \<in> set ds. str_or (d_type d) ''function'' = k"
    and "ds \<noteq> []"
    and "\<not> reusable TToolGroup k (getLastPart ps)"
  shows "getAllTools (ps @ qs) = getAllTools ps @ getAllTools qs \<and>
         map t_index (getAllTools (fold apply_chunk (map tool_chunk ds) ps)) =
           map t_index (getAllTools ps) @ arrival_order (map d_index ds)"
proof -
  obtain d ds' where ds: "ds = d # ds'"
    using assms(2) by (cases ds) auto
  have first: "apply_chunk (tool_chunk d) ps = ps @ [ToolGroup k [new_tool d]]"
    using assms(1,3) ds by (simp add: apply_tool_chunk addOrUpdateTool_def getOrCreatePart_def)
  obtain ts' where ts':
    "fold apply_chunk (map tool_chunk ds') (ps @ [ToolGroup k [new_tool d]]) =
       ps @ [ToolGroup k ts']"
    "map t_index ts' = map t_index [new_tool d] @
        filter (\<lambda>i. i \<notin> t_index ` set [new_tool d]) (arrival_order (map d_index ds'))"
    using fold_same_group [of ds' k ps "[new_tool d]"] assms(1) ds by auto
  have "map t_index ts' = arrival_order (map d_index ds)"
    using ts'(2) ds by (simp add: new_tool_def)
  then show ?thesis
    using first ts'(1) ds by (simp add: getAllTools_append getAllTools_def)
qed

theorem tools_in_creation_order_witness:
  "map t_index (getAllTools (fold apply_chunk
      (map tool_chunk [delta0\<lparr>d_index := 2\<rparr>, delta0\<lparr>d_index := 0\<rparr>, delta0\<lparr>d_index := 2\<rparr>])
      [Content ''x''])) = [2, 0]"
  using tools_in_creation_order
    [of "[delta0\<lparr>d_index := 2\<rparr>, delta0\<lparr>d_index := 0\<rparr>, delta0\<lparr>d_index := 2\<rparr>]"
      "''function''" "[Content ''x'']" "[]"]
  by (simp add: delta0_def getAllTools_def)

subsection \<open>Attaching a tool result\<close>

lemma set_first_result_at:
  assumes "\<not> list_ex (id_matches i) ts1" and "id_matches i t"
  shows "set_first_result i r (ts1 @ t # ts2) = ts1 @ t\<lparr>t_result := Some r\<rparr> # ts2"
  using assms by (induction ts1) auto

lemma setToolResult_at:
  assumes "\<not> list_ex (id_matches i) (getAllTools before)" and "list_ex (id_matches i) ts"
  shows "setToolResult i r (before @ ToolGroup k ts # after) =
           (True, before @ ToolGroup k (set_first_result i r ts) # after)"
  using assms
proof (induction before)
  case Nil
  then show ?case by simp
next
  case (Cons p before)
  then show ?case by (cases p) (auto simp: getAllTools_Cons)
qed

text \<open>
  A tool with the id \<open>s\<close> that sits anywhere in any tool group, no tool before it
  carrying the same id, is the one that receives the result.
\<close>

lemma tool_result_at:
  assumes "t_id t = Some s"
    and "Some s \<notin> t_id ` set (getAllTools before @ ts1)"
  shows "setToolResult (Str s) r (before @ ToolGroup k (ts1 @ t # ts2) # after) =
           (True, before @ ToolGroup k (ts1 @ t\<lparr>t_result := Some r\<rparr> # ts2) # after) \<and>
         apply_chunk (tool_result_chunk (Str s) r)
             (before @ ToolGroup k (ts1 @ t # ts2) # after) =
           before @ ToolGroup k (ts1 @ t\<lparr>t_result := Some r\<rparr> # ts2) # after"
proof -
  have no1: "\<not> list_ex (id_matches (Str s)) (getAllTools before)"
    using assms(2) by (force simp: list_ex_iff)
  have no2: "\<not> list_ex (id_matches (Str s)) ts1"
    using assms(2) by (force simp: list_ex_iff)
  have yes: "list_ex (id_matches (Str s)) (ts1 @ t # ts2)"
    using assms(1) by (simp add: list_ex_iff)
  have "id_matches (Str s) t"
    using assms(1) by simp
  then show ?thesis
    using setToolResult_at [OF no1 yes] set_first_result_at [OF no2]
    by (simp add: apply_tool_result_chunk)
qed

lemma first_tool_with:
  assumes "list_ex P (getAllTools ps)"
  shows "\<exists>before k ts1 t ts2 after.
           ps = before @ ToolGroup k (ts1 @ t # ts2) # after \<and> P t \<and>
           \<not> list_ex P (getAllTools before) \<and> \<not> list_ex P ts1"
  using assms
proof (induction ps)
  case Nil
  then show ?case by (simp add: getAllTools_def)
next
  case (Cons p ps)
  show ?case
  proof (cases "list_ex P (part_tools p)")
    case True
    then obtain k ts where p: "p = ToolGroup k ts" by (cases p) auto
    then have "\<exists>t \<in> set ts. P t" using True by (simp add: list_ex_iff)
    from split_list_first_prop [OF this]
    obtain ts1 t ts2 where ts: "ts = ts1 @ t # ts2" "P t" "\<forall>y \<in> set ts1. \<not> P y"
      by (elim exE conjE)
    have np: "\<not> list_ex P ts1"
      using ts(3) by (simp add: list_ex_iff)
    have e: "getAllTools [] = []"
      by (simp add: getAllTools_def)
    have "p # ps = [] @ ToolGroup k (ts1 @ t # ts2) # ps \<and> P t \<and>
               \<not> list_ex P (getAllTools []) \<and> \<not> list_ex P ts1"
      using p ts(1,2) np by (simp add: e)
    then show ?thesis
      apply (rule_tac x = "[]" in exI)
      apply (rule_tac x = k in exI)
      apply (rule_tac x = ts1 in exI)
      apply (rule_tac x = t in exI)
      apply (rule_tac x = ts2 in exI)
      apply (rule_tac x = ps in exI)
      apply assumption
      done
  next
    case False
    then have "list_ex P (getAllTools ps)"
      using Cons.prems by (simp add: getAllTools_Cons)
    from Cons.IH [OF this]
    obtain before k ts1 t ts2 after where
      d: "ps = before @ ToolGroup k (ts1 @ t # ts2) # after" "P t"
         "\<not> list_ex P (getAllTools before)" "\<not> list_ex P ts1"
      by (elim exE conjE)
    have nb: "\<not> list_ex P (getAllTools (p # before))"
      using d(3) False by (simp add: getAllTools_Cons)
    have "p # ps = (p # before) @ ToolGroup k (ts1 @ t # ts2) # after \<and> P t \<and>
          \<not> list_ex P (getAllTools (p # before)) \<and> \<not> list_ex P ts1"
      using d(1,2,4) nb by simp
    then show ?thesis
      apply (rule_tac x = "p # before" in exI)
      apply (rule_tac x = k in exI)
      apply (rule_tac x = ts1 in exI)
      apply (rule_tac x = t in exI)
      apply (rule_tac x = ts2 in exI)
      apply (rule_tac x = after in exI)
      apply assumption
      done
  qed
qed

text \<open>
  C8, as the claim states it, fails when two tools carry the same id: deltas of the
  indexes 0 and 1, both with the id "x", give two tools, and the tool_result chunk with
  that id stores the result in the first only; the second tool has the id and never
  gets the result.
\<close>

theorem tool_result_duplicate_id_counterexample:
  "map t_id (getAllTools (fold apply_chunk
     [tool_chunk (delta0\<lparr>d_id := Str ''x''\<rparr>),
      tool_chunk (delta0\<lparr>d_index := 1, d_id := Str ''x''\<rparr>)] [])) = [Some ''x'', Some ''x''] \<and>
   map t_result (getAllTools (fold apply_chunk
     [tool_chunk (delta0\<lparr>d_id := Str ''x''\<rparr>),
      tool_chunk (delta0\<lparr>d_index := 1, d_id := Str ''x''\<rparr>),
      tool_result_chunk (Str ''x'') ''42''] [])) = [Some ''42'', None]"
  by (simp add: apply_tool_chunk apply_tool_result_chunk addOrUpdateTool_def getOrCreatePart_def
      delta0_def update_tool_def new_tool_def getAllTools_def)

text \<open>
  C8, amended.  For every builder state that holds a tool with the id \<open>s\<close> in some tool
  group, whatever parts come before and after that group: setToolResult returns true,
  and the tool_result chunk with that id stores the result in the first tool that
  carries the id (in part order, then in the order of its group; \<^verbatim>\<open>find\<close> returns
  the first match) and changes nothing else.  So a tool whose id no earlier tool
  carries gets its result wherever its group sits.
\<close>

theorem tool_result_attaches:
  assumes "list_ex (\<lambda>t. t_id t = Some s) (getAllTools ps)"
  shows "\<exists>before k ts1 t ts2 after.
           ps = before @ ToolGroup k (ts1 @ t # ts2) # after \<and>
           t_id t = Some s \<and> Some s \<notin> t_id ` set (getAllTools before @ ts1) \<and>
           setToolResult (Str s) r ps =
             (True, before @ ToolGroup k (ts1 @ t\<lparr>t_result := Some r\<rparr> # ts2) # after) \<and>
           apply_chunk (tool_result_chunk (Str s) r) ps =
             before @ ToolGroup k (ts1 @ t\<lparr>t_result := Some r\<rparr> # ts2) # after"
proof -
  from first_tool_with [OF assms]
  obtain before k ts1 t ts2 after where
    d: "ps = before @ ToolGroup k (ts1 @ t # ts2) # after" "t_id t = Some s"
       "\<not> list_ex (\<lambda>t. t_id t = Some s) (getAllTools before)"
       "\<not> list_ex (\<lambda>t. t_id t = Some s) ts1"
    by (elim exE conjE)
  have fresh: "Some s \<notin> t_id ` set (getAllTools before @ ts1)"
    using d(3,4) by (auto simp: list_ex_iff)
  have "ps = before @ ToolGroup k (ts1 @ t # ts2) # after \<and>
           t_id t = Some s \<and> Some s \<notin> t_id ` set (getAllTools before @ ts1) \<and>
           setToolResult (Str s) r ps =
             (True, before @ ToolGroup k (ts1 @ t\<lparr>t_result := Some r\<rparr> # ts2) # after) \<and>
           apply_chunk (tool_result_chunk (Str s) r) ps =
             before @ ToolGroup k (ts1 @ t\<lparr>t_result := Some r\<rparr> # ts2) # after"
    using tool_result_at [OF d(2) fresh, of r k ts2 after] d(1,2) fresh by simp
  then show ?thesis
    apply (rule_tac x = before in exI)
    apply (rule_tac x = k in exI)
    apply (rule_tac x = ts1 in exI)
    apply (rule_tac x = t in exI)
    apply (rule_tac x = ts2 in exI)
    apply (rule_tac x = after in exI)
    apply assumption
    done
qed

theorem tool_result_attaches_witness:
  "fst (setToolResult (Str ''call_1'') ''42''
     [Reasoning ''r'',
      ToolGroup ''function'' [new_tool (delta0\<lparr>d_id := Str ''call_1''\<rparr>)],
      Content ''done'']) \<and>
   apply_chunk (tool_result_chunk (Str ''call_1'') ''42'')
     [Reasoning ''r'',
      ToolGroup ''function'' [new_tool (delta0\<lparr>d_id := Str ''call_1''\<rparr>)],
      Content ''done''] =
   [Reasoning ''r'',
    ToolGroup ''function''
      [(new_tool (delta0\<lparr>d_id := Str ''call_1''\<rparr>))\<lparr>t_result := Some ''42''\<rparr>],
    Content ''done'']"
proof -
  have h: "list_ex (\<lambda>t. t_id t = Some ''call_1'')
             (getAllTools [Reasoning ''r'',
                ToolGroup ''function'' [new_tool (delta0\<lparr>d_id := Str ''call_1''\<rparr>)],
                Content ''done''])"
    by (simp add: getAllTools_def new_tool_def delta0_def)
  have found: "fst (setToolResult (Str ''call_1'') ''42''
     [Reasoning ''r'',
      ToolGroup ''function'' [new_tool (delta0\<lparr>d_id := Str ''call_1''\<rparr>)],
      Content ''done''])"
    using tool_result_attaches [OF h, of "''42''"] by auto
  then show ?thesis
    by (simp add: apply_tool_result_chunk new_tool_def delta0_def)
qed

section \<open>The stream generator handleIncomingMessage (message.js, src/app/composables/availableModels.js)\<close>

subsection \<open>Frames of the completion endpoint\<close>

text \<open>
  A data frame after \<^verbatim>\<open>JSON.parse\<close>:
  \<^verbatim>\<open>{ choices: [{ delta, finish_reason, message }], usage, annotations, error }\<close>.
  Only \<^verbatim>\<open>choices[0]\<close> is read.  Annotations are opaque and stand as a string.
\<close>

record delta =
  dl_content :: js_string
  dl_reasoning :: "string option"
  dl_tool_calls :: "tool_delta list option"
  dl_images :: "api_image list option"
  dl_annotations :: "string option"

record choice =
  ch_delta :: "delta option"
  ch_finish_reason :: "string option"
  ch_message_content :: js_string
  ch_message_annotations :: "string option"

record api_error =
  er_type :: "string option"
  er_message :: "string option"

record frame =
  fr_error :: "api_error option"
  fr_choice0 :: "choice option"
  fr_usage :: "usage option"
  fr_annotations :: "string option"

subsection \<open>One response stream\<close>

record stream_state =
  toolCallAccumulator :: accumulator
  hadToolCalls :: bool
  finishedReason :: "string option"

definition init_stream :: stream_state where
  "init_stream = \<lparr>toolCallAccumulator = [], hadToolCalls = False, finishedReason = None\<rparr>"

text \<open>An exception: its \<^verbatim>\<open>name\<close> and its \<^verbatim>\<open>message\<close>.\<close>

datatype exn = Exn string string

fun exn_name :: "exn \<Rightarrow> string" where
  "exn_name (Exn n m) = n"

fun exn_message :: "exn \<Rightarrow> string" where
  "exn_message (Exn n m) = m"

definition nl :: string where
  "nl = [CHR 0x0A]"

fun js_to_option :: "js_string \<Rightarrow> string option" where
  "js_to_option (Str s) = Some s"
| "js_to_option _ = None"

fun delta_content :: "choice \<Rightarrow> js_string" where
  "delta_content c = (case ch_delta c of None \<Rightarrow> Undefined | Some d \<Rightarrow> dl_content d)"

fun delta_tool_calls :: "choice \<Rightarrow> tool_delta list option" where
  "delta_tool_calls c = (case ch_delta c of None \<Rightarrow> None | Some d \<Rightarrow> dl_tool_calls d)"

fun opt_list :: "'a list option \<Rightarrow> 'a list" where
  "opt_list None = []"
| "opt_list (Some xs) = xs"

text \<open>
  The body of \<^verbatim>\<open>if (parsed.choices && parsed.choices[0])\<close>: the accumulator and the
  finish reason are updated, and up to six chunks are yielded, in this order.
\<close>

definition choice_state :: "choice \<Rightarrow> stream_state \<Rightarrow> stream_state" where
  "choice_state c st =
     (let st1 = (case delta_tool_calls c of
                   None \<Rightarrow> st
                 | Some tcs \<Rightarrow> st\<lparr>hadToolCalls := True,
                      toolCallAccumulator := fold accumulate tcs (toolCallAccumulator st)\<rparr>)
      in if truthy (ch_finish_reason c) then st1\<lparr>finishedReason := ch_finish_reason c\<rparr>
         else st1)"

definition choice_chunks :: "frame \<Rightarrow> choice \<Rightarrow> chunk list" where
  "choice_chunks parsed c =
     (let tcs = opt_list (delta_tool_calls c);
          reasoning = (case ch_delta c of None \<Rightarrow> None | Some d \<Rightarrow> dl_reasoning d);
          annotations =
            (if truthy (ch_message_annotations c) then ch_message_annotations c
             else if truthy (case ch_delta c of None \<Rightarrow> None | Some d \<Rightarrow> dl_annotations d)
             then (case ch_delta c of None \<Rightarrow> None | Some d \<Rightarrow> dl_annotations d)
             else fr_annotations parsed);
          images = opt_list (case ch_delta c of None \<Rightarrow> None | Some d \<Rightarrow> dl_images d)
      in (if js_truthy (delta_content c)
          then [empty_chunk\<lparr>c_content := js_to_option (delta_content c), c_tool_calls := tcs\<rparr>]
          else []) @
         (if truthy reasoning
          then [empty_chunk\<lparr>c_reasoning := reasoning, c_tool_calls := tcs\<rparr>] else []) @
         (if delta_tool_calls c \<noteq> None then [empty_chunk\<lparr>c_tool_calls := tcs\<rparr>] else []) @
         (if fr_usage parsed \<noteq> None then [empty_chunk\<lparr>c_usage := fr_usage parsed\<rparr>] else []) @
         (if truthy annotations then [empty_chunk\<lparr>c_annotations := annotations\<rparr>] else []) @
         (if images \<noteq> []
          then [empty_chunk\<lparr>c_content :=
                   (if delta_content c \<noteq> Undefined then js_to_option (delta_content c)
                    else js_to_option (ch_message_content c)),
                 c_images := images\<rparr>]
          else []))"

definition error_chunk :: "api_error \<Rightarrow> chunk" where
  "error_chunk e =
     empty_chunk\<lparr>c_content :=
         Some (nl @ nl @ ''[ERROR: '' @
               (case er_message e of None \<Rightarrow> ''undefined'' | Some m \<Rightarrow> m) @ '']''),
       c_error := Some \<lparr>ed_name = str_or (er_type e) ''APIError'',
                        ed_message = er_message e\<rparr>\<rparr>"

text \<open>
  What \<^verbatim>\<open>JSON.parse\<close> makes of a payload: it throws (the line is skipped), it
  returns \<^verbatim>\<open>null\<close>, or it returns a value whose fields are then read (a value
  without the fields is the frame with nothing in it).  Reading \<^verbatim>\<open>parsed.error\<close> of
  \<^verbatim>\<open>null\<close> throws a TypeError, outside the \<^verbatim>\<open>try\<close> around the parse; its message
  is the one of V8.
\<close>

datatype json_result = NotJson | JsonNull | JsonValue frame

definition null_error :: exn where
  "null_error =
     Exn ''TypeError''
       (''Cannot read properties of null (reading '' @ [CHR 0x27] @ ''error'' @ [CHR 0x27] @ '')'')"

text \<open>
  The loop over the complete lines of one read.  \<^verbatim>\<open>continue\<close> goes to the next line;
  \<^verbatim>\<open>break\<close> (at the \<^verbatim>\<open>[DONE]\<close> sentinel and after a frame once the finish reason is
  \<^verbatim>\<open>"tool_calls"\<close>) leaves this loop only; an error frame yields a chunk and throws.
  The result is the state, the chunks yielded, and the exception thrown if any.
\<close>

definition starts_with :: "string \<Rightarrow> string \<Rightarrow> bool" where
  "starts_with p s = (take (length p) s = p)"

fun for_lines ::
  "(string \<Rightarrow> json_result) \<Rightarrow> string list \<Rightarrow> stream_state \<Rightarrow>
     stream_state \<times> chunk list \<times> exn option" where
  "for_lines parse [] st = (st, [], None)"
| "for_lines parse (line # lines) st =
     (if \<not> starts_with ''data: '' line then for_lines parse lines st
      else let data = drop 6 line in
        if data = ''[DONE]'' then (st, [], None)
        else (case parse data of
          NotJson \<Rightarrow> for_lines parse lines st
        | JsonNull \<Rightarrow> (st, [], Some null_error)
        | JsonValue parsed \<Rightarrow>
            (case fr_error parsed of
               Some e \<Rightarrow>
                 (st, [error_chunk e], Some (Exn ''Error'' (str_or (er_message e) ''API error'')))
             | None \<Rightarrow>
                 (let st' = (case fr_choice0 parsed of
                               None \<Rightarrow> st | Some c \<Rightarrow> choice_state c st);
                      out = (case fr_choice0 parsed of
                               None \<Rightarrow> [] | Some c \<Rightarrow> choice_chunks parsed c)
                  in if finishedReason st' = Some ''tool_calls'' then (st', out, None)
                     else (case for_lines parse lines st' of
                             (st'', out', r) \<Rightarrow> (st'', out @ out', r))))))"

text \<open>\<^verbatim>\<open>buffer.split("\n")\<close>: at least one piece, the last one being the unfinished line.\<close>

fun split_lines :: "string \<Rightarrow> string list" where
  "split_lines [] = [[]]"
| "split_lines (c # cs) =
     (if c = CHR 0x0A then [] # split_lines cs
      else (case split_lines cs of [] \<Rightarrow> [[c]] | l # ls \<Rightarrow> (c # l) # ls))"

text \<open>
  What \<^verbatim>\<open>reader.read()\<close> gives: decoded text, or a rejection (an abort of the signal
  rejects with the name AbortError).  The end of the list is \<^verbatim>\<open>done\<close>.
\<close>

datatype read_result = Bytes string | ReadRejects exn

fun read_loop ::
  "(string \<Rightarrow> json_result) \<Rightarrow> read_result list \<Rightarrow> string \<Rightarrow> stream_state \<Rightarrow>
     stream_state \<times> chunk list \<times> exn option" where
  "read_loop parse [] buffer st = (st, [], None)"
| "read_loop parse (ReadRejects e # rs) buffer st = (st, [], Some e)"
| "read_loop parse (Bytes v # rs) buffer st =
     (let lines = split_lines (buffer @ v) in
      case for_lines parse (butlast lines) st of
        (st', out, Some e) \<Rightarrow> (st', out, Some e)
      | (st', out, None) \<Rightarrow>
          (case read_loop parse rs (last lines) st' of
             (st'', out', r) \<Rightarrow> (st'', out @ out', r)))"

subsection \<open>Messages, requests and the tool registry\<close>

record attachment =
  at_id :: string
  at_type :: string
  at_filename :: string
  at_dataUrl :: string
  at_mimeType :: string

text \<open>
  A message of the conversation.  The time stamps of a message are
  left out: no claim reads them.
\<close>

record message =
  m_id :: string
  m_role :: string
  m_content :: string
  m_reasoning :: string
  m_complete :: bool
  m_parts :: "part list option"
  m_tool_calls :: "tool list"
  m_attachments :: "attachment list"
  m_tokenCount :: nat
  m_totalTokens :: nat
  m_promptTokens :: nat
  m_annotations :: "string option"
  m_errorDetails :: "error_details option"

text \<open>
  A message of a request body.  \<open>HistoryMsg m\<close> stands for \<^verbatim>\<open>formatMessageForAPI(m)\<close>
  and \<open>UserMsg\<close> for the new user message built from the query and the attachments.
\<close>

record tool_message =
  tm_tool_call_id :: js_string
  tm_name :: string
  tm_content :: string

datatype api_message =
    SystemMsg string
  | HistoryMsg message
  | UserMsg string "attachment list"
  | AssistantToolCalls "acc_tool list"
  | ToolMsg tool_message

text \<open>
  What the generator does, in order: a request to the completion endpoint, a chunk
  yielded to the consumer, a round of local tool execution.
\<close>

datatype event = Fetch "api_message list" | Yield chunk | ExecuteTools "acc_tool list"

text \<open>
  The body of a response that is not ok, as \<^verbatim>\<open>response.json()\<close> gives it: a value
  (with the \<^verbatim>\<open>error.message\<close> it has, if any), \<^verbatim>\<open>null\<close>, or a rejection (no
  JSON, or the signal aborted while the body was read).
\<close>

datatype error_body = BodyJson "string option" | BodyNull | BodyRejects exn

text \<open>
  The response of \<^verbatim>\<open>fetch\<close>: a rejection (an aborted signal rejects with the name
  AbortError), a status that is not ok (its text, and its body), or a body read piece
  by piece.
\<close>

datatype response =
    FetchRejects exn
  | HttpError string error_body
  | HttpOk "read_result list"

datatype exec_result = Returned string | Threw string

record tool_entry =
  te_executor :: "string \<Rightarrow> message list \<Rightarrow> exec_result"
  te_schema :: string

text \<open>
  The world around one turn: the response to the n-th request, \<^verbatim>\<open>JSON.parse\<close> on a
  frame, the tool registry, and \<^verbatim>\<open>JSON.stringify\<close> on an error object.  An executor
  takes the arguments text (it falls back to no arguments when the text does not parse)
  and returns the result already serialised, or throws.
\<close>

record env =
  server :: "nat \<Rightarrow> response"
  parse_frame :: "string \<Rightarrow> json_result"
  getTool :: "string \<Rightarrow> tool_entry option"
  stringify_error :: "string \<Rightarrow> string"

record settings =
  tool_max_iterations :: "int option"
  custom_instructions :: "string option"

record model_info =
  mi_id :: string
  mi_tool_use :: "bool option"

definition getSchemasByNames :: "env \<Rightarrow> string list \<Rightarrow> string list" where
  "getSchemasByNames E names = map te_schema (List.map_filter (getTool E) names)"

definition executeToolCall :: "env \<Rightarrow> message list \<Rightarrow> acc_tool \<Rightarrow> tool_message" where
  "executeToolCall E messageHistory toolCall =
     (let name = a_name toolCall in
      \<lparr>tm_tool_call_id = a_id toolCall, tm_name = name,
       tm_content =
         (case getTool E name of
            None \<Rightarrow> [CHR 0x7B, CHR 0x22] @ ''error'' @ [CHR 0x22] @ '': '' @ [CHR 0x22] @
                     ''Unknown tool '' @ [CHR 0x27] @ name @ [CHR 0x27, CHR 0x22, CHR 0x7D]
          | Some tool \<Rightarrow>
              (case te_executor tool (a_arguments toolCall) messageHistory of
                 Returned r \<Rightarrow> r
               | Threw m \<Rightarrow> stringify_error E (''Tool execution failed: '' @ m)))\<rparr>)"

definition executeToolCallsLocally ::
  "env \<Rightarrow> acc_tool list \<Rightarrow> message list \<Rightarrow> tool_message list" where
  "executeToolCallsLocally E completedToolCalls messageHistory =
     map (executeToolCall E messageHistory) completedToolCalls"

subsection \<open>The agent loop\<close>

text \<open>What stays fixed while the loop of one turn runs.\<close>

record turn_ctx =
  baseMessages :: "api_message list"
  plainMessages :: "message list"
  modelSupportsTools :: bool
  maxToolIterations :: int

text \<open>
  \<^verbatim>\<open>await response.json().catch(() => ({}))\<close> followed by
  \<^verbatim>\<open>errorData.error?.message || "Unknown error"\<close> and the \<^verbatim>\<open>throw\<close>: a rejection
  of the body, whatever its cause, gives the empty object; a body that is \<^verbatim>\<open>null\<close>
  makes \<^verbatim>\<open>errorData.error\<close> throw the TypeError instead.
\<close>

fun http_error :: "string \<Rightarrow> error_body \<Rightarrow> exn" where
  "http_error status (BodyJson msg) =
     Exn ''Error'' (''API request failed with status '' @ status @ '': '' @
                    str_or msg ''Unknown error'')"
| "http_error status BodyNull = null_error"
| "http_error status (BodyRejects e) =
     Exn ''Error'' (''API request failed with status '' @ status @ '': Unknown error'')"

text \<open>One request and the reading of its response, up to \<^verbatim>\<open>reader.releaseLock()\<close>.\<close>

fun one_call :: "env \<Rightarrow> response \<Rightarrow> stream_state \<times> chunk list \<times> exn option" where
  "one_call E (FetchRejects e) = (init_stream, [], Some e)"
| "one_call E (HttpError status body) = (init_stream, [], Some (http_error status body))"
| "one_call E (HttpOk reads) = read_loop (parse_frame E) reads [] init_stream"

definition tool_result_event :: "tool_message \<Rightarrow> event" where
  "tool_result_event toolMsg =
     Yield (empty_chunk\<lparr>c_tool_result := Some (tm_tool_call_id toolMsg, tm_content toolMsg)\<rparr>)"

text \<open>
  The \<^verbatim>\<open>while (true)\<close> loop.  \<open>iteration\<close> counts the passes, so it is also the
  number of the request.  The result is the trace of events and the exception that left
  the loop, if one did.
\<close>

function agent_loop ::
  "env \<Rightarrow> turn_ctx \<Rightarrow> nat \<Rightarrow> api_message list \<Rightarrow> event list \<times> exn option" where
  "agent_loop E ctx iteration intermediateMessages =
     (case one_call E (server E iteration) of
        (st, out, Some e) \<Rightarrow>
          (Fetch (baseMessages ctx @ intermediateMessages) # map Yield out, Some e)
      | (st, out, None) \<Rightarrow>
          if \<not> hadToolCalls st \<or> \<not> modelSupportsTools ctx
          then (Fetch (baseMessages ctx @ intermediateMessages) # map Yield out, None)
          else if int (Suc iteration) \<ge> maxToolIterations ctx
          then (Fetch (baseMessages ctx @ intermediateMessages) # map Yield out, None)
          else
            (case agent_loop E ctx (Suc iteration)
                    (intermediateMessages @
                     AssistantToolCalls (object_values (toolCallAccumulator st)) #
                     map ToolMsg
                       (executeToolCallsLocally E (object_values (toolCallAccumulator st))
                          (plainMessages ctx))) of
               (evs, r) \<Rightarrow>
                 (Fetch (baseMessages ctx @ intermediateMessages) # map Yield out @
                  ExecuteTools (object_values (toolCallAccumulator st)) #
                  map tool_result_event
                    (executeToolCallsLocally E (object_values (toolCallAccumulator st))
                       (plainMessages ctx)) @ evs, r)))"
  by pat_completeness auto
termination
  by (relation "measure (\<lambda>(E, ctx, iteration, im). nat (maxToolIterations ctx - int iteration))")
    auto

declare agent_loop.simps [simp del]

subsection \<open>handleIncomingMessage\<close>

definition cancel_chunk :: chunk where
  "cancel_chunk = empty_chunk\<lparr>c_content := Some (nl @ nl @ ''[STREAM CANCELED]'')\<rparr>"

definition critical_error_chunk :: "exn \<Rightarrow> chunk" where
  "critical_error_chunk e =
     (let errorMessage = (if exn_message e = [] then ''No detailed information''
                          else exn_message e)
      in empty_chunk\<lparr>c_content :=
             Some (nl @ nl @ ''[CRITICAL ERROR: Failed to patch request.'' @ errorMessage @ '']''),
           c_error := Some \<lparr>ed_name = (if exn_name e = [] then ''UnknownError'' else exn_name e),
                            ed_message = Some errorMessage\<rparr>\<rparr>)"

text \<open>
  No tool name is ever enabled (\<^verbatim>\<open>enabledToolNames\<close> stays empty: the memory and
  search tools were removed), so no schema is sent.
\<close>

definition enabledToolNames :: "string list" where
  "enabledToolNames = []"

definition enabledToolSchemas :: "env \<Rightarrow> string list" where
  "enabledToolSchemas E =
     (if enabledToolNames \<noteq> [] then getSchemasByNames E enabledToolNames else [])"

definition turn_context ::
  "env \<Rightarrow> string \<Rightarrow> message list \<Rightarrow> settings \<Rightarrow> model_info option \<Rightarrow>
     attachment list \<Rightarrow> turn_ctx" where
  "turn_context E query history st selectedModelInfo attachments =
     (let modelHasToolUse =
            (case selectedModelInfo of None \<Rightarrow> True | Some mi \<Rightarrow> mi_tool_use mi \<noteq> Some False);
          base = map HistoryMsg history @ [UserMsg query attachments]
      in \<lparr>baseMessages =
            (if truthy (custom_instructions st)
             then SystemMsg (the (custom_instructions st)) # base else base),
          plainMessages = history,
          modelSupportsTools = (modelHasToolUse \<and> enabledToolSchemas E \<noteq> []),
          maxToolIterations = (case tool_max_iterations st of None \<Rightarrow> 4 | Some n \<Rightarrow> n)\<rparr>)"

text \<open>
  The generator: the body in its \<^verbatim>\<open>try\<close>, and the \<^verbatim>\<open>catch\<close> that turns an
  exception into a last chunk.  The result is the trace; no exception leaves the
  generator.
\<close>

definition handleIncomingMessage ::
  "env \<Rightarrow> string \<Rightarrow> message list \<Rightarrow> settings \<Rightarrow> model_info option \<Rightarrow>
     attachment list \<Rightarrow> event list" where
  "handleIncomingMessage E query history st selectedModelInfo attachments =
     (case (if query = []
            then ([], Some (Exn ''Error'' ''Missing required parameters for handleIncomingMessage''))
            else agent_loop E (turn_context E query history st selectedModelInfo attachments) 0 [])
      of
        (evs, None) \<Rightarrow> evs
      | (evs, Some e) \<Rightarrow>
          (if exn_name e = ''AbortError'' then evs @ [Yield cancel_chunk]
           else evs @ [Yield (critical_error_chunk e)]))"

section \<open>sendMessage (messagesManager.js, src/unnamed/part_009)\<close>

record ui_state =
  messages :: "message list"
  isLoading :: bool

record send_args =
  sa_message :: string
  sa_originalMessage :: "string option"
  sa_attachments :: "attachment list"
  sa_skipUserMessage :: bool

text \<open>
  What sendMessage takes from its surroundings: the two ids that \<^verbatim>\<open>generateId\<close>
  returns, the model found for the selected id, and the settings.
\<close>

record send_env =
  user_id :: string
  assistant_id :: string
  selectedModelDetails :: "model_info option"
  current_settings :: settings

definition new_user_message :: "string \<Rightarrow> string \<Rightarrow> attachment list \<Rightarrow> message" where
  "new_user_message uid content attachments =
     \<lparr>m_id = uid, m_role = ''user'', m_content = content, m_reasoning = [],
      m_complete = True, m_parts = None, m_tool_calls = [], m_attachments = attachments,
      m_tokenCount = 0, m_totalTokens = 0, m_promptTokens = 0, m_annotations = None,
      m_errorDetails = None\<rparr>"

definition addUserMessage ::
  "string \<Rightarrow> string \<Rightarrow> attachment list \<Rightarrow> message list \<Rightarrow> message list" where
  "addUserMessage uid content attachments msgs =
     (if trim content = [] \<and> attachments = [] then msgs
      else msgs @ [new_user_message uid content attachments])"

definition new_assistant_message :: "string \<Rightarrow> message" where
  "new_assistant_message aid =
     \<lparr>m_id = aid, m_role = ''assistant'', m_content = [], m_reasoning = [],
      m_complete = False, m_parts = None, m_tool_calls = [], m_attachments = [],
      m_tokenCount = 0, m_totalTokens = 0, m_promptTokens = 0, m_annotations = None,
      m_errorDetails = None\<rparr>"

text \<open>
  \<^verbatim>\<open>updateAssistantMessage\<close> replaces the first message that has the id of the given
  one by a copy with the updates.
\<close>

fun update_first :: "('a \<Rightarrow> bool) \<Rightarrow> ('a \<Rightarrow> 'a) \<Rightarrow> 'a list \<Rightarrow> 'a list" where
  "update_first P f [] = []"
| "update_first P f (x # xs) = (if P x then f x # xs else x # update_first P f xs)"

definition updateAssistantMessage ::
  "message \<Rightarrow> (message \<Rightarrow> message) \<Rightarrow> message list \<Rightarrow> message list" where
  "updateAssistantMessage msg updates msgs = update_first (\<lambda>m. m_id m = m_id msg) updates msgs"

text \<open>
  The state of one turn: the local object \<^verbatim>\<open>assistantMsg\<close>, the PartsBuilder, and the
  message list.  \<^verbatim>\<open>createAssistantMessage\<close> pushes the object itself, so the last
  message of the list is that object (\<open>linked\<close>) until the first chunk replaces it by
  a copy; \<open>visible_messages\<close> is the list as a reader sees it.
\<close>

record turn =
  assistantMsg :: message
  builder :: "part list"
  msgs :: "message list"
  linked :: bool

definition visible_messages :: "turn \<Rightarrow> message list" where
  "visible_messages t =
     (if linked t then butlast (msgs t) @ [assistantMsg t] else msgs t)"

definition legacy_reasoning :: "chunk \<Rightarrow> message \<Rightarrow> message" where
  "legacy_reasoning c a =
     (if truthy (c_reasoning c) \<and> trim (the (c_reasoning c)) \<noteq> ''None''
      then (if trim (m_reasoning a) = [] \<and> trim (the (c_reasoning c)) \<noteq> []
            then a\<lparr>m_reasoning := the (c_reasoning c)\<rparr>
            else a\<lparr>m_reasoning := m_reasoning a @ the (c_reasoning c)\<rparr>)
      else a)"

definition record_usage :: "chunk \<Rightarrow> message \<Rightarrow> message" where
  "record_usage c a =
     (case c_usage c of
        None \<Rightarrow> a
      | Some u \<Rightarrow>
          a\<lparr>m_tokenCount := (case completion_tokens u of None \<Rightarrow> m_tokenCount a | Some n \<Rightarrow> n),
            m_totalTokens := (case total_tokens u of None \<Rightarrow> m_totalTokens a | Some n \<Rightarrow> n),
            m_promptTokens := (case prompt_tokens u of None \<Rightarrow> m_promptTokens a | Some n \<Rightarrow> n)\<rparr>)"

text \<open>The body of the \<^verbatim>\<open>for await\<close> loop, ending with \<^verbatim>\<open>updateMessageReactivity\<close>.\<close>

definition process_chunk :: "chunk \<Rightarrow> turn \<Rightarrow> turn" where
  "process_chunk c t =
     (let parts = apply_chunk c (builder t);
          a1 = (if truthy (c_content c)
                then (assistantMsg t)\<lparr>m_content := m_content (assistantMsg t) @ the (c_content c)\<rparr>
                else assistantMsg t);
          a2 = legacy_reasoning c a1;
          a3 = record_usage c a2;
          a4 = (if truthy (c_annotations c) then a3\<lparr>m_annotations := c_annotations c\<rparr> else a3)
      in \<lparr>assistantMsg = a4, builder = parts,
          msgs = butlast (msgs t) @ [a4\<lparr>m_parts := Some parts, m_tool_calls := getAllTools parts\<rparr>],
          linked = False\<rparr>)"

text \<open>
  After the loop: the parts are stored on \<^verbatim>\<open>assistantMsg\<close>, then the \<^verbatim>\<open>finally\<close>
  block runs and marks the message of the list complete.
\<close>

definition finalize :: "turn \<Rightarrow> message list" where
  "finalize t =
     (let a1 = (assistantMsg t)\<lparr>m_parts := Some (builder t), m_tool_calls := getAllTools (builder t)\<rparr>;
          a2 = (if m_parts a1 = None \<or> m_parts a1 = Some []
                then a1\<lparr>m_parts := Some (builder t), m_tool_calls := getAllTools (builder t)\<rparr>
                else a1);
          a3 = (if trim (m_reasoning a2) = [] then a2\<lparr>m_reasoning := []\<rparr> else a2);
          a4 = (if hasImagePart (builder t) \<and> \<not> hasContentPart (builder t) \<and> m_content a3 \<noteq> []
                then a3\<lparr>m_parts := Some (ensureContentPartFirst (m_content a3) (builder t))\<rparr>
                else a3);
          shown = visible_messages (t\<lparr>assistantMsg := a4\<rparr>);
          done = updateAssistantMessage a4 (\<lambda>m. m\<lparr>m_complete := True\<rparr>) shown
      in if m_complete a4 \<and> m_content a4 = [] \<and> m_errorDetails a4 \<noteq> None
         then updateAssistantMessage a4
                (\<lambda>m. m\<lparr>m_content := nl @ ''[ERROR: '' @
                     (case ed_message (the (m_errorDetails a4)) of None \<Rightarrow> ''undefined'' | Some e \<Rightarrow> e) @
                     '']''\<rparr>) done
         else done)"

fun yielded :: "event list \<Rightarrow> chunk list" where
  "yielded [] = []"
| "yielded (Yield c # evs) = c # yielded evs"
| "yielded (ev # evs) = yielded evs"

definition consume :: "chunk list \<Rightarrow> message \<Rightarrow> message list \<Rightarrow> message list" where
  "consume cs a ms =
     finalize (fold process_chunk cs \<lparr>assistantMsg = a, builder = [], msgs = ms, linked = True\<rparr>)"

definition messageToStore :: "send_args \<Rightarrow> string" where
  "messageToStore args =
     (case sa_originalMessage args of None \<Rightarrow> sa_message args | Some original \<Rightarrow> original)"

text \<open>The messages once the user message and the new assistant message are pushed.\<close>

definition pushed_messages :: "send_env \<Rightarrow> send_args \<Rightarrow> ui_state \<Rightarrow> message list" where
  "pushed_messages S args ui =
     (if sa_skipUserMessage args then messages ui
      else addUserMessage (user_id S) (messageToStore args) (sa_attachments args) (messages ui)) @
     [new_assistant_message (assistant_id S)]"

text \<open>
  The generator that sendMessage creates, as the trace it produces; there is none when
  the call returns early (nothing to send, a turn in flight, or no model selected).
\<close>

definition stream_of :: "env \<Rightarrow> send_env \<Rightarrow> send_args \<Rightarrow> ui_state \<Rightarrow> event list option" where
  "stream_of E S args ui =
     (if (trim (sa_message args) = [] \<and> sa_attachments args = []) \<or> isLoading ui then None
      else if selectedModelDetails S = None then None
      else Some (handleIncomingMessage E (sa_message args)
             (filter (\<lambda>msg. m_complete msg \<and> m_content msg \<noteq> messageToStore args)
                (pushed_messages S args ui))
             (current_settings S) (selectedModelDetails S) (sa_attachments args)))"

definition sendMessage :: "env \<Rightarrow> send_env \<Rightarrow> send_args \<Rightarrow> ui_state \<Rightarrow> ui_state" where
  "sendMessage E S args ui =
     (if (trim (sa_message args) = [] \<and> sa_attachments args = []) \<or> isLoading ui then ui
      else (case stream_of E S args ui of
              None \<Rightarrow>
                ui\<lparr>messages :=
                     updateAssistantMessage (new_assistant_message (assistant_id S))
                       (\<lambda>m. m\<lparr>m_content :=
                              (if m_content (new_assistant_message (assistant_id S)) \<noteq> []
                               then m_content (new_assistant_message (assistant_id S)) @ nl @ nl
                               else []) @ ''Error: No AI model selected.'',
                            m_complete := True\<rparr>)
                       (pushed_messages S args ui),
                   isLoading := False\<rparr>
            | Some evs \<Rightarrow>
                ui\<lparr>messages :=
                     consume (yielded evs) (new_assistant_message (assistant_id S))
                       (pushed_messages S args ui),
                   isLoading := False\<rparr>))"

section \<open>Properties of the stream generator and of sendMessage\<close>

subsection \<open>Example frames and worlds\<close>

definition empty_delta :: delta where
  "empty_delta = \<lparr>dl_content = Undefined, dl_reasoning = None, dl_tool_calls = None,
                  dl_images = None, dl_annotations = None\<rparr>"

definition delta_frame :: "delta \<Rightarrow> string option \<Rightarrow> frame" where
  "delta_frame d finish =
     \<lparr>fr_error = None,
      fr_choice0 = Some \<lparr>ch_delta = Some d, ch_finish_reason = finish,
                         ch_message_content = Undefined, ch_message_annotations = None\<rparr>,
      fr_usage = None, fr_annotations = None\<rparr>"

text \<open>A frame that carries a tool-call delta and the finish reason "tool_calls".\<close>

definition tool_calls_frame :: frame where
  "tool_calls_frame =
     delta_frame (empty_delta\<lparr>dl_tool_calls :=
                    Some [delta0\<lparr>d_id := Str ''call_1'', d_name := Some ''search''\<rparr>]\<rparr>)
       (Some ''tool_calls'')"

text \<open>A frame that carries the content "late".\<close>

definition content_frame :: frame where
  "content_frame = delta_frame (empty_delta\<lparr>dl_content := Str ''late''\<rparr>) None"

text \<open>
  A stand-in for \<^verbatim>\<open>JSON.parse\<close> on three payloads: \<open>T\<close> is the text of
  \<open>tool_calls_frame\<close>, \<open>C\<close> the text of \<open>content_frame\<close>, and \<open>null\<close> is
  itself; nothing else parses.
\<close>

definition example_parse :: "string \<Rightarrow> json_result" where
  "example_parse s =
     (if s = ''T'' then JsonValue tool_calls_frame
      else if s = ''C'' then JsonValue content_frame
      else if s = ''null'' then JsonNull else NotJson)"

definition example_env :: "(nat \<Rightarrow> response) \<Rightarrow> env" where
  "example_env srv =
     \<lparr>server = srv, parse_frame = example_parse, getTool = (\<lambda>name. None),
      stringify_error = (\<lambda>m. m)\<rparr>"

text \<open>A model that answers every request with a tool call.\<close>

definition tool_loop_env :: env where
  "tool_loop_env = example_env (\<lambda>n. HttpOk [Bytes (''data: T'' @ nl)])"

text \<open>A response whose reading is aborted after the first frame.\<close>

definition cancel_env :: env where
  "cancel_env =
     example_env (\<lambda>n. HttpOk [Bytes (''data: C'' @ nl), ReadRejects (Exn ''AbortError'' ''aborted'')])"

text \<open>A response that is not ok, the reading of its body aborted.\<close>

definition body_abort_env :: env where
  "body_abort_env =
     example_env (\<lambda>n. HttpError ''500'' (BodyRejects (Exn ''AbortError'' ''aborted'')))"

definition example_send_env :: send_env where
  "example_send_env =
     \<lparr>user_id = ''u2'', assistant_id = ''a2'',
      selectedModelDetails = Some \<lparr>mi_id = ''gemini-3-pro-preview'', mi_tool_use = None\<rparr>,
      current_settings = \<lparr>tool_max_iterations = None, custom_instructions = None\<rparr>\<rparr>"

definition example_args :: send_args where
  "example_args = \<lparr>sa_message = ''hi'', sa_originalMessage = None, sa_attachments = [],
                    sa_skipUserMessage = False\<rparr>"

definition earlier_answer :: message where
  "earlier_answer = (new_assistant_message ''a1'')\<lparr>m_content := ''hello'', m_complete := True\<rparr>"

definition example_ui :: ui_state where
  "example_ui = \<lparr>messages = [new_user_message ''u1'' ''hi'' [], earlier_answer],
                  isLoading = False\<rparr>"


text \<open>
  A turn whose query differs from the original message, after a conversation that holds
  both texts.
\<close>

definition prefixed_args :: send_args where
  "prefixed_args = \<lparr>sa_message = ''/no_think hi'', sa_originalMessage = Some ''hi'',
                     sa_attachments = [], sa_skipUserMessage = False\<rparr>"

definition prefixed_ui :: ui_state where
  "prefixed_ui =
     \<lparr>messages = [new_user_message ''u0'' ''/no_think hi'' [],
                  new_user_message ''u1'' ''hi'' [], earlier_answer],
      isLoading = False\<rparr>"

lemmas stream_defs = nl_def starts_with_def example_parse_def tool_calls_frame_def
  content_frame_def delta_frame_def empty_delta_def choice_state_def choice_chunks_def
  init_stream_def accumulate_def merge_delta_def delta0_def empty_chunk_def Let_def

subsection \<open>What is counted in a trace\<close>

fun is_exec :: "event \<Rightarrow> bool" where
  "is_exec (ExecuteTools tcs) = True"
| "is_exec ev = False"

fun is_fetch :: "event \<Rightarrow> bool" where
  "is_fetch (Fetch ms) = True"
| "is_fetch ev = False"

definition tool_rounds :: "event list \<Rightarrow> nat" where
  "tool_rounds evs = length (filter is_exec evs)"

definition requests :: "event list \<Rightarrow> nat" where
  "requests evs = length (filter is_fetch evs)"

text \<open>Every response is read to its end without an error and carries tool calls.\<close>

definition always_requests_tools :: "env \<Rightarrow> bool" where
  "always_requests_tools E =
     (\<forall>n. snd (snd (one_call E (server E n))) = None \<and>
          hadToolCalls (fst (one_call E (server E n))))"

text \<open>The text that the content chunks of a list add to the flat content.\<close>

definition chunk_text :: "chunk list \<Rightarrow> string" where
  "chunk_text cs = concat (map (\<lambda>c. if truthy (c_content c) then the (c_content c) else []) cs)"

text \<open>\<open>ends_with s m\<close>: the string \<open>s\<close> ends with \<open>m\<close>.\<close>

definition ends_with :: "string \<Rightarrow> string \<Rightarrow> bool" where
  "ends_with s m = (drop (length s - length m) s = m)"

fun first_request :: "event list \<Rightarrow> api_message list option" where
  "first_request (Fetch ms # evs) = Some ms"
| "first_request evs = None"

fun history_in :: "api_message list \<Rightarrow> message list" where
  "history_in [] = []"
| "history_in (HistoryMsg m # ms) = m # history_in ms"
| "history_in (x # ms) = history_in ms"

text \<open>
  The invariant of the chunk loop: the local object keeps the id, stays incomplete and
  holds the text so far; the list ends with that object or with a copy of the same text.
\<close>

definition turn_ok :: "message list \<Rightarrow> string \<Rightarrow> string \<Rightarrow> turn \<Rightarrow> bool" where
  "turn_ok old aid body t =
     (m_id (assistantMsg t) = aid \<and> \<not> m_complete (assistantMsg t) \<and>
      m_content (assistantMsg t) = body \<and>
      (\<exists>x. msgs t = old @ [x] \<and> (linked t \<or> (m_id x = aid \<and> m_content x = body))))"

subsection \<open>The reader after the finish reason "tool_calls"\<close>

text \<open>
  C4.  Two reads: the first delivers the frame with the finish reason "tool_calls", the
  second a content frame.  The reader does not return after the first: the
  \<^verbatim>\<open>break\<close> leaves the loop over the lines of that read only, the next read is
  consumed, and a chunk with the content "late" is emitted for the later frame.
\<close>

theorem reader_continues_after_tool_calls:
  "finishedReason (fst (read_loop example_parse [Bytes (''data: T'' @ nl)] [] init_stream)) =
     Some ''tool_calls'' \<and>
   map c_content (fst (snd (read_loop example_parse
          [Bytes (''data: T'' @ nl), Bytes (''data: C'' @ nl)] [] init_stream))) =
     [None, Some ''late'']"
  by (simp add: stream_defs)

text \<open>Within one read the lines after that frame are skipped.\<close>

lemma reader_skips_rest_of_read:
  "map c_content (fst (snd (read_loop example_parse
          [Bytes (''data: T'' @ nl @ ''data: C'' @ nl)] [] init_stream))) = [None]"
  by (simp add: stream_defs)

subsection \<open>The rounds of the agent loop\<close>

lemma tool_rounds_simps [simp]:
  "tool_rounds [] = 0"
  "tool_rounds (Fetch ms # evs) = tool_rounds evs"
  "tool_rounds (Yield c # evs) = tool_rounds evs"
  "tool_rounds (ExecuteTools tcs # evs) = Suc (tool_rounds evs)"
  "tool_rounds (evs @ evs') = tool_rounds evs + tool_rounds evs'"
  "tool_rounds (map Yield cs) = 0"
  "tool_rounds (map tool_result_event rs) = 0"
  by (simp_all add: tool_rounds_def tool_result_event_def comp_def)

lemma requests_simps [simp]:
  "requests [] = 0"
  "requests (Fetch ms # evs) = Suc (requests evs)"
  "requests (Yield c # evs) = requests evs"
  "requests (ExecuteTools tcs # evs) = requests evs"
  "requests (evs @ evs') = requests evs + requests evs'"
  "requests (map Yield cs) = 0"
  "requests (map tool_result_event rs) = 0"
  by (simp_all add: requests_def tool_result_event_def comp_def)

lemma agent_loop_stop:
  assumes "one_call E (server E it) = (st, out, None)"
    and "\<not> hadToolCalls st \<or> \<not> modelSupportsTools ctx \<or> int (Suc it) \<ge> maxToolIterations ctx"
  shows "agent_loop E ctx it im = (Fetch (baseMessages ctx @ im) # map Yield out, None)"
  using assms by (subst agent_loop.simps) auto

lemma agent_loop_throw:
  assumes "one_call E (server E it) = (st, out, Some e)"
  shows "agent_loop E ctx it im = (Fetch (baseMessages ctx @ im) # map Yield out, Some e)"
  using assms by (subst agent_loop.simps) auto

lemma agent_loop_again:
  assumes "one_call E (server E it) = (st, out, None)"
    and "hadToolCalls st" and "modelSupportsTools ctx" and "int (Suc it) < maxToolIterations ctx"
    and "agent_loop E ctx (Suc it)
           (im @ AssistantToolCalls (object_values (toolCallAccumulator st)) #
            map ToolMsg (executeToolCallsLocally E (object_values (toolCallAccumulator st))
                          (plainMessages ctx))) = (evs, r)"
  shows "agent_loop E ctx it im =
           (Fetch (baseMessages ctx @ im) # map Yield out @
            ExecuteTools (object_values (toolCallAccumulator st)) #
            map tool_result_event
              (executeToolCallsLocally E (object_values (toolCallAccumulator st))
                 (plainMessages ctx)) @ evs, r)"
  using assms by (subst agent_loop.simps) auto

text \<open>
  With tool support on and a model that always asks for tools, a loop that stands at
  request \<open>it\<close> below the bound issues the requests up to the bound and executes tools
  after each of them but the last.
\<close>

lemma loop_rounds:
  assumes "always_requests_tools E" and "modelSupportsTools ctx"
  shows "int it < maxToolIterations ctx \<Longrightarrow>
         tool_rounds (fst (agent_loop E ctx it im)) = nat (maxToolIterations ctx - 1 - int it) \<and>
         requests (fst (agent_loop E ctx it im)) = nat (maxToolIterations ctx - int it) \<and>
         snd (agent_loop E ctx it im) = None"
proof (induction "nat (maxToolIterations ctx - int it)" arbitrary: it im)
  case 0
  then show ?case by simp
next
  case (Suc k)
  obtain st out r where oc: "one_call E (server E it) = (st, out, r)"
    by (cases "one_call E (server E it)") auto
  have r: "r = None" and had: "hadToolCalls st"
    using assms(1) oc unfolding always_requests_tools_def
    by (metis fst_conv snd_conv)+
  show ?case
  proof (cases "int (Suc it) \<ge> maxToolIterations ctx")
    case True
    have "agent_loop E ctx it im = (Fetch (baseMessages ctx @ im) # map Yield out, None)"
      using oc r True by (intro agent_loop_stop) auto
    then show ?thesis using True Suc.prems by simp
  next
    case False
    let ?im = "im @ AssistantToolCalls (object_values (toolCallAccumulator st)) #
            map ToolMsg (executeToolCallsLocally E (object_values (toolCallAccumulator st))
                          (plainMessages ctx))"
    obtain evs r' where nx: "agent_loop E ctx (Suc it) ?im = (evs, r')"
      by (cases "agent_loop E ctx (Suc it) ?im") auto
    have k: "k = nat (maxToolIterations ctx - int (Suc it))"
      using Suc.hyps(2) by simp
    have IH: "tool_rounds evs = nat (maxToolIterations ctx - 1 - int (Suc it)) \<and>
              requests evs = nat (maxToolIterations ctx - int (Suc it)) \<and> r' = None"
      using Suc.hyps(1) [OF k, of ?im] False nx by simp
    have "agent_loop E ctx it im =
           (Fetch (baseMessages ctx @ im) # map Yield out @
            ExecuteTools (object_values (toolCallAccumulator st)) #
            map tool_result_event
              (executeToolCallsLocally E (object_values (toolCallAccumulator st))
                 (plainMessages ctx)) @ evs, r')"
      using oc r had assms(2) False nx by (intro agent_loop_again) auto
    then show ?thesis using IH False by simp linarith
  qed
qed

lemma never_supports_tools [simp]:
  "modelSupportsTools (turn_context E q h st mi ats) = False"
  by (simp add: turn_context_def enabledToolSchemas_def enabledToolNames_def Let_def)

lemma maxToolIterations_context [simp]:
  "maxToolIterations (turn_context E q h st mi ats) =
     (case tool_max_iterations st of None \<Rightarrow> 4 | Some n \<Rightarrow> n)"
  by (simp add: turn_context_def Let_def)

text \<open>The generator as it stands issues one request: tool support is never on.\<close>

lemma handle_one_call:
  assumes "q \<noteq> []" and "one_call E (server E 0) = (st, out, r)"
  shows "handleIncomingMessage E q h stg mi ats =
           Fetch (baseMessages (turn_context E q h stg mi ats)) # map Yield out @
           (case r of
              None \<Rightarrow> []
            | Some e \<Rightarrow> [Yield (if exn_name e = ''AbortError'' then cancel_chunk
                                 else critical_error_chunk e)])"
proof (cases r)
  case None
  then have "agent_loop E (turn_context E q h stg mi ats) 0 [] =
               (Fetch (baseMessages (turn_context E q h stg mi ats) @ []) # map Yield out, None)"
    using assms(2) by (intro agent_loop_stop [where st = st]) auto
  then show ?thesis using assms(1) None by (simp add: handleIncomingMessage_def)
next
  case (Some e)
  then have "agent_loop E (turn_context E q h stg mi ats) 0 [] =
               (Fetch (baseMessages (turn_context E q h stg mi ats) @ []) # map Yield out, Some e)"
    using assms(2) by (intro agent_loop_throw [where st = st]) auto
  then show ?thesis using assms(1) Some by (simp add: handleIncomingMessage_def)
qed

subsection \<open>The end of a turn\<close>

lemma legacy_reasoning_keeps [simp]:
  "m_id (legacy_reasoning c a) = m_id a"
  "m_complete (legacy_reasoning c a) = m_complete a"
  "m_content (legacy_reasoning c a) = m_content a"
  by (simp_all add: legacy_reasoning_def)

lemma record_usage_keeps [simp]:
  "m_id (record_usage c a) = m_id a"
  "m_complete (record_usage c a) = m_complete a"
  "m_content (record_usage c a) = m_content a"
  by (simp_all add: record_usage_def split: option.splits)

lemma process_chunk_ok:
  assumes "turn_ok old aid body t"
  shows "turn_ok old aid (body @ chunk_text [c]) (process_chunk c t)"
  using assms by (auto simp: turn_ok_def process_chunk_def Let_def chunk_text_def)

lemma fold_process_ok:
  assumes "turn_ok old aid body t"
  shows "turn_ok old aid (body @ chunk_text cs) (fold process_chunk cs t)"
  using assms
proof (induction cs arbitrary: t body)
  case Nil
  then show ?case by (simp add: chunk_text_def)
next
  case (Cons c cs)
  have "turn_ok old aid ((body @ chunk_text [c]) @ chunk_text cs)
          (fold process_chunk cs (process_chunk c t))"
    by (intro Cons.IH process_chunk_ok Cons.prems)
  then show ?case by (simp add: chunk_text_def)
qed

lemma update_first_fresh:
  assumes "\<forall>x \<in> set xs. \<not> P x" and "P y"
  shows "update_first P f (xs @ [y]) = xs @ [f y]"
  using assms by (induction xs) auto

lemma finalize_ok:
  assumes "turn_ok old aid body t" and "aid \<notin> m_id ` set old"
  shows "\<exists>m. finalize t = old @ [m] \<and> m_complete m \<and> m_content m = body \<and> m_id m = aid"
proof -
  obtain x where x: "msgs t = old @ [x]" "linked t \<or> (m_id x = aid \<and> m_content x = body)"
    using assms(1) by (auto simp: turn_ok_def)
  have a: "m_id (assistantMsg t) = aid" "\<not> m_complete (assistantMsg t)"
    "m_content (assistantMsg t) = body"
    using assms(1) by (auto simp: turn_ok_def)
  have fresh: "\<forall>m \<in> set old. \<not> m_id m = aid"
    using assms(2) by auto
  show ?thesis
  proof (cases "linked t")
    case True
    then show ?thesis
      using x a
      by (simp add: finalize_def Let_def visible_messages_def updateAssistantMessage_def
          update_first_fresh [OF fresh])
  next
    case False
    then show ?thesis
      using x a
      by (simp add: finalize_def Let_def visible_messages_def updateAssistantMessage_def
          update_first_fresh [OF fresh])
  qed
qed

text \<open>
  Whatever chunks a turn yields, the assistant message ends complete, with the content
  chunks as its content.
\<close>

lemma consume_ok:
  assumes "aid \<notin> m_id ` set old"
  shows "\<exists>m. consume cs (new_assistant_message aid) (old @ [new_assistant_message aid]) =
               old @ [m] \<and>
             m_complete m \<and> m_content m = chunk_text cs \<and> m_id m = aid"
proof -
  have "turn_ok old aid [] \<lparr>assistantMsg = new_assistant_message aid, builder = [],
          msgs = old @ [new_assistant_message aid], linked = True\<rparr>"
    by (simp add: turn_ok_def new_assistant_message_def)
  then have "turn_ok old aid ([] @ chunk_text cs)
               (fold process_chunk cs \<lparr>assistantMsg = new_assistant_message aid, builder = [],
                  msgs = old @ [new_assistant_message aid], linked = True\<rparr>)"
    by (rule fold_process_ok)
  then show ?thesis
    using finalize_ok [OF _ assms] by (simp add: consume_def)
qed

lemma yielded_append [simp]: "yielded (evs @ evs') = yielded evs @ yielded evs'"
  by (induction evs rule: yielded.induct) auto

lemma yielded_map_Yield [simp]: "yielded (map Yield cs) = cs"
  by (induction cs) auto

lemma chunk_text_append [simp]: "chunk_text (cs @ cs') = chunk_text cs @ chunk_text cs'"
  by (simp add: chunk_text_def)

lemma chunk_text_cancel [simp]: "chunk_text [cancel_chunk] = nl @ nl @ ''[STREAM CANCELED]''"
  by (simp add: chunk_text_def cancel_chunk_def empty_chunk_def nl_def)

lemma pushed_messages_shape:
  assumes "assistant_id S \<notin> m_id ` set (messages ui)" and "assistant_id S \<noteq> user_id S"
  shows "\<exists>old. pushed_messages S args ui = old @ [new_assistant_message (assistant_id S)] \<and>
               assistant_id S \<notin> m_id ` set old"
  using assms
  by (auto simp: pushed_messages_def addUserMessage_def new_user_message_def)

lemma sendMessage_result:
  assumes "stream_of E S args ui = Some evs"
    and "assistant_id S \<notin> m_id ` set (messages ui)"
    and "assistant_id S \<noteq> user_id S"
  shows "\<exists>old msg. messages (sendMessage E S args ui) = old @ [msg] \<and>
            m_id msg = assistant_id S \<and> m_complete msg \<and>
            m_content msg = chunk_text (yielded evs)"
proof -
  obtain old where old:
    "pushed_messages S args ui = old @ [new_assistant_message (assistant_id S)]"
    "assistant_id S \<notin> m_id ` set old"
    using pushed_messages_shape [OF assms(2,3)] by blast
  have guard: "\<not> ((trim (sa_message args) = [] \<and> sa_attachments args = []) \<or> isLoading ui)"
    using assms(1) by (auto simp: stream_of_def split: if_splits)
  have "messages (sendMessage E S args ui) =
          consume (yielded evs) (new_assistant_message (assistant_id S))
            (old @ [new_assistant_message (assistant_id S)])"
    using guard assms(1) old(1) by (auto simp: sendMessage_def)
  then show ?thesis
    using consume_ok [OF old(2), of "yielded evs"] by auto
qed

lemma example_stream:
  "stream_of E example_send_env example_args example_ui =
     Some (handleIncomingMessage E ''hi'' [earlier_answer]
             (current_settings example_send_env) (selectedModelDetails example_send_env) [])"
  by (simp add: stream_of_def example_send_env_def example_args_def example_ui_def
      pushed_messages_def addUserMessage_def new_user_message_def new_assistant_message_def
      earlier_answer_def messageToStore_def trim_def js_ws_def)






subsection \<open>Cancellation\<close>

lemma read_loop_rejected:
  assumes "read_loop P (map Bytes bs) buf st = (st', cs, None)"
  shows "read_loop P (map Bytes bs @ ReadRejects e # rest) buf st = (st', cs, Some e)"
  using assms
proof (induction bs arbitrary: buf st cs)
  case Nil
  then show ?case by simp
next
  case (Cons b bs)
  obtain s1 o1 r1 where f: "for_lines P (butlast (split_lines (buf @ b))) st = (s1, o1, r1)"
    by (cases "for_lines P (butlast (split_lines (buf @ b))) st") auto
  have r1: "r1 = None"
    using Cons.prems f by (auto simp: Let_def split: option.splits prod.splits)
  obtain s2 o2 r2 where
    n: "read_loop P (map Bytes bs) (last (split_lines (buf @ b))) s1 = (s2, o2, r2)"
    by (cases "read_loop P (map Bytes bs) (last (split_lines (buf @ b))) s1") auto
  have eq: "r2 = None" "st' = s2" "cs = o1 @ o2"
    using Cons.prems f r1 n by (auto simp: Let_def)
  have "read_loop P (map Bytes bs @ ReadRejects e # rest) (last (split_lines (buf @ b))) s1 =
          (s2, o2, Some e)"
    using Cons.IH n eq by simp
  then show ?case using f r1 eq by (simp add: Let_def)
qed

lemma body_abort_trace:
  "yielded (handleIncomingMessage body_abort_env ''hi'' h stg mi ats) =
     [critical_error_chunk (Exn ''Error'' ''API request failed with status 500: Unknown error'')]"
proof -
  have oc: "one_call body_abort_env (server body_abort_env 0) =
          (init_stream, [], Some (Exn ''Error'' ''API request failed with status 500: Unknown error''))"
    by (simp add: body_abort_env_def example_env_def)
  have q: "''hi'' \<noteq> []" by simp
  show ?thesis
    using handle_one_call [OF q oc] by simp
qed

text \<open>
  C9, as the claim states it, fails for an abort that comes while the body of a response
  that is not ok is read: \<^verbatim>\<open>response.json().catch(() => ({}))\<close> swallows the
  rejection, a plain Error is thrown, and the generator yields the critical-error chunk.
  The cancellation marker is not yielded and the content of the message does not end
  with it.
\<close>

theorem body_abort_counterexample:
  "server body_abort_env 0 = HttpError ''500'' (BodyRejects (Exn ''AbortError'' ''aborted'')) \<and>
   yielded (the (stream_of body_abort_env example_send_env example_args example_ui)) =
     [critical_error_chunk (Exn ''Error'' ''API request failed with status 500: Unknown error'')] \<and>
   cancel_chunk \<notin> set (yielded (the (stream_of body_abort_env example_send_env example_args example_ui))) \<and>
   m_content (last (messages (sendMessage body_abort_env example_send_env example_args example_ui))) =
     nl @ nl @ ''[CRITICAL ERROR: Failed to patch request.API request failed with status 500: Unknown error]'' \<and>
   \<not> ends_with
       (m_content (last (messages (sendMessage body_abort_env example_send_env example_args example_ui))))
       ''[STREAM CANCELED]''"
proof -
  have f1: "assistant_id example_send_env \<notin> m_id ` set (messages example_ui)"
    by (simp add: example_ui_def example_send_env_def new_user_message_def earlier_answer_def
        new_assistant_message_def)
  have f2: "assistant_id example_send_env \<noteq> user_id example_send_env"
    by (simp add: example_send_env_def)
  have y: "yielded (the (stream_of body_abort_env example_send_env example_args example_ui)) =
     [critical_error_chunk (Exn ''Error'' ''API request failed with status 500: Unknown error'')]"
    by (simp add: example_stream body_abort_trace)
  have t: "chunk_text [critical_error_chunk (Exn ''Error'' ''API request failed with status 500: Unknown error'')] =
     nl @ nl @ ''[CRITICAL ERROR: Failed to patch request.API request failed with status 500: Unknown error]''"
    by (simp add: chunk_text_def critical_error_chunk_def empty_chunk_def nl_def)
  have c: "m_content (last (messages (sendMessage body_abort_env example_send_env example_args example_ui))) =
     nl @ nl @ ''[CRITICAL ERROR: Failed to patch request.API request failed with status 500: Unknown error]''"
    using sendMessage_result [OF example_stream f1 f2, of body_abort_env] y t
    by (auto simp: example_stream)
  have n: "critical_error_chunk (Exn ''Error'' ''API request failed with status 500: Unknown error'') \<noteq> cancel_chunk"
    by (simp add: critical_error_chunk_def cancel_chunk_def empty_chunk_def)
  have e: "\<not> ends_with (nl @ nl @ ''[CRITICAL ERROR: Failed to patch request.API request failed with status 500: Unknown error]'') ''[STREAM CANCELED]''"
    by (simp add: ends_with_def nl_def)
  show ?thesis
    using y c n e by (simp add: body_abort_env_def example_env_def)
qed

text \<open>
  C9, amended.  Let a turn reach the generator with a non-empty query, and let the signal
  abort it while the request is pending or while the stream of an ok response is read:
  the request is rejected with AbortError, or the response is read without a stream
  error up to a read that is rejected with AbortError (the chunks \<open>cs\<close> having been
  yielded).  Then the trace of the generator is that one request, the chunks \<open>cs\<close>,
  and last the chunk whose content is the cancellation marker; the generator returns (no
  exception leaves it) and no further request is issued.  The assistant message of the
  turn ends complete, its content being the text of \<open>cs\<close> followed by the marker.
\<close>

theorem abort_yields_marker:
  assumes "stream_of E S args ui = Some evs"
    and "sa_message args \<noteq> []"
    and "(server E 0 = FetchRejects (Exn ''AbortError'' m) \<and> cs = []) \<or>
         (server E 0 = HttpOk (map Bytes bs @ ReadRejects (Exn ''AbortError'' m) # rest) \<and>
          read_loop (parse_frame E) (map Bytes bs) [] init_stream = (st, cs, None))"
    and "assistant_id S \<notin> m_id ` set (messages ui)"
    and "assistant_id S \<noteq> user_id S"
  shows "(\<exists>req. evs = Fetch req # map Yield cs @ [Yield cancel_chunk]) \<and>
         requests evs = 1 \<and>
         (\<exists>old msg. messages (sendMessage E S args ui) = old @ [msg] \<and>
            m_id msg = assistant_id S \<and> m_complete msg \<and>
            m_content msg = chunk_text cs @ nl @ nl @ ''[STREAM CANCELED]'')"
proof -
  obtain st' where oc: "one_call E (server E 0) = (st', cs, Some (Exn ''AbortError'' m))"
    using assms(3) read_loop_rejected [of "parse_frame E" bs "[]" init_stream st cs]
    by auto
  have evs: "evs = handleIncomingMessage E (sa_message args)
             (filter (\<lambda>msg. m_complete msg \<and> m_content msg \<noteq> messageToStore args)
                (pushed_messages S args ui))
             (current_settings S) (selectedModelDetails S) (sa_attachments args)"
    using assms(1) by (simp add: stream_of_def split: if_splits)
  have trace: "\<exists>req. evs = Fetch req # map Yield cs @ [Yield cancel_chunk]"
    unfolding evs using handle_one_call [OF assms(2) oc] by simp
  then have y: "yielded evs = cs @ [cancel_chunk]" and n: "requests evs = 1"
    by auto
  obtain old where old:
    "pushed_messages S args ui = old @ [new_assistant_message (assistant_id S)]"
    "assistant_id S \<notin> m_id ` set old"
    using pushed_messages_shape [OF assms(4,5)] by blast
  have guard: "\<not> ((trim (sa_message args) = [] \<and> sa_attachments args = []) \<or> isLoading ui)"
    using assms(1) by (auto simp: stream_of_def split: if_splits)
  have "messages (sendMessage E S args ui) =
          consume (cs @ [cancel_chunk]) (new_assistant_message (assistant_id S))
            (old @ [new_assistant_message (assistant_id S)])"
    using guard assms(1) y old(1) by (auto simp: sendMessage_def)
  then show ?thesis
    using consume_ok [OF old(2), of "cs @ [cancel_chunk]"] trace n by auto
qed

theorem abort_yields_marker_witness:
  "m_complete (last (messages (sendMessage cancel_env example_send_env example_args example_ui))) \<and>
   m_content (last (messages (sendMessage cancel_env example_send_env example_args example_ui))) =
     ''late'' @ nl @ nl @ ''[STREAM CANCELED]'' \<and>
   requests (the (stream_of cancel_env example_send_env example_args example_ui)) = 1"
proof -
  have q: "sa_message example_args \<noteq> []"
    by (simp add: example_args_def)
  have r: "read_loop (parse_frame cancel_env) (map Bytes [''data: C'' @ nl]) [] init_stream =
             (init_stream, [empty_chunk\<lparr>c_content := Some ''late''\<rparr>], None)"
    by (simp add: cancel_env_def example_env_def stream_defs)
  have s: "server cancel_env 0 =
             HttpOk (map Bytes [''data: C'' @ nl] @ ReadRejects (Exn ''AbortError'' ''aborted'') # [])"
    by (simp add: cancel_env_def example_env_def)
  have f1: "assistant_id example_send_env \<notin> m_id ` set (messages example_ui)"
    by (simp add: example_ui_def example_send_env_def new_user_message_def earlier_answer_def
        new_assistant_message_def)
  have f2: "assistant_id example_send_env \<noteq> user_id example_send_env"
    by (simp add: example_send_env_def)
  have t: "chunk_text [empty_chunk\<lparr>c_content := Some ''late''\<rparr>] = ''late''"
    by (simp add: chunk_text_def empty_chunk_def)
  show ?thesis
    using abort_yields_marker [OF example_stream q disjI2 [OF conjI [OF s r]] f1 f2]
    by (auto simp: t example_stream)
qed

subsection \<open>The history of a request\<close>

lemma history_in_append [simp]: "history_in (xs @ ys) = history_in xs @ history_in ys"
  by (induction xs rule: history_in.induct) auto

lemma history_in_map [simp]: "history_in (map HistoryMsg ms) = ms"
  by (induction ms) auto

lemma agent_loop_first:
  "\<exists>rest. fst (agent_loop E ctx it im) = Fetch (baseMessages ctx @ im) # rest"
  by (subst agent_loop.simps) (auto split: prod.splits option.splits)

lemma pushed_history:
  "filter (\<lambda>msg. m_complete msg \<and> m_content msg \<noteq> messageToStore args)
     (pushed_messages S args ui) =
   filter (\<lambda>msg. m_complete msg \<and> m_content msg \<noteq> messageToStore args) (messages ui)"
  by (simp add: pushed_messages_def addUserMessage_def new_user_message_def
      new_assistant_message_def)

text \<open>
  C10.  Whenever sendMessage creates the generator, the history it hands over consists
  of exactly the messages that were in the list before the call, are complete and have a
  content different from the text of the new user message (the original message when one
  is given, the message otherwise), in their order; the new user message and the new
  assistant message are not among them.  When the query is not empty these are the
  history messages of the first request.  So an earlier message whose content equals the
  new input is left out.
\<close>

theorem request_history:
  assumes "stream_of E S args ui = Some evs"
  shows "evs = handleIncomingMessage E (sa_message args)
           (filter (\<lambda>msg. m_complete msg \<and>
                      m_content msg \<noteq>
                        (case sa_originalMessage args of
                           None \<Rightarrow> sa_message args | Some original \<Rightarrow> original))
              (messages ui))
           (current_settings S) (selectedModelDetails S) (sa_attachments args) \<and>
         (sa_message args \<noteq> [] \<longrightarrow>
            map_option history_in (first_request evs) =
              Some (filter (\<lambda>msg. m_complete msg \<and>
                              m_content msg \<noteq>
                                (case sa_originalMessage args of
                                   None \<Rightarrow> sa_message args | Some original \<Rightarrow> original))
                      (messages ui)))"
proof -
  let ?h = "filter (\<lambda>msg. m_complete msg \<and> m_content msg \<noteq> messageToStore args) (messages ui)"
  let ?ctx = "turn_context E (sa_message args) ?h (current_settings S) (selectedModelDetails S)
                (sa_attachments args)"
  have evs: "evs = handleIncomingMessage E (sa_message args) ?h
           (current_settings S) (selectedModelDetails S) (sa_attachments args)"
    using assms by (simp add: stream_of_def pushed_history split: if_splits)
  have base: "history_in (baseMessages ?ctx) = ?h"
    by (simp add: turn_context_def Let_def)
  have req: "map_option history_in (first_request evs) = Some ?h" if "sa_message args \<noteq> []"
  proof -
    obtain rest where rest: "fst (agent_loop E ?ctx 0 []) = Fetch (baseMessages ?ctx @ []) # rest"
      using agent_loop_first by blast
    obtain tr r where tr: "agent_loop E ?ctx 0 [] = (tr, r)"
      by (cases "agent_loop E ?ctx 0 []")
    then have "first_request evs = Some (baseMessages ?ctx)"
      using rest that evs by (auto simp: handleIncomingMessage_def split: option.splits)
    then show ?thesis using base by simp
  qed
  have store: "messageToStore args =
     (case sa_originalMessage args of None \<Rightarrow> sa_message args | Some original \<Rightarrow> original)"
    by (simp add: messageToStore_def)
  show ?thesis
    using evs req unfolding store by blast
qed

lemma prefixed_stream:
  "stream_of E example_send_env prefixed_args prefixed_ui =
     Some (handleIncomingMessage E ''/no_think hi''
             [new_user_message ''u0'' ''/no_think hi'' [], earlier_answer]
             (current_settings example_send_env) (selectedModelDetails example_send_env) [])"
  by (simp add: stream_of_def example_send_env_def prefixed_args_def prefixed_ui_def
      pushed_messages_def addUserMessage_def new_user_message_def new_assistant_message_def
      earlier_answer_def messageToStore_def trim_def js_ws_def)

theorem request_history_witness:
  "sa_message prefixed_args = ''/no_think hi'' \<and> sa_originalMessage prefixed_args = Some ''hi'' \<and>
   map m_content (messages prefixed_ui) = [''/no_think hi'', ''hi'', ''hello''] \<and>
   map_option (map m_content \<circ> history_in)
     (first_request (the (stream_of tool_loop_env example_send_env prefixed_args prefixed_ui))) =
     Some [''/no_think hi'', ''hello'']"
proof -
  have q: "sa_message prefixed_args \<noteq> []"
    by (simp add: prefixed_args_def)
  have h: "filter (\<lambda>msg. m_complete msg \<and>
                      m_content msg \<noteq>
                        (case sa_originalMessage prefixed_args of
                           None \<Rightarrow> sa_message prefixed_args | Some original \<Rightarrow> original))
             (messages prefixed_ui) = [new_user_message ''u0'' ''/no_think hi'' [], earlier_answer]"
    by (simp add: prefixed_ui_def prefixed_args_def new_user_message_def
        earlier_answer_def new_assistant_message_def)
  have g: "the (stream_of tool_loop_env example_send_env prefixed_args prefixed_ui) =
             handleIncomingMessage tool_loop_env ''/no_think hi''
               [new_user_message ''u0'' ''/no_think hi'' [], earlier_answer]
               (current_settings example_send_env) (selectedModelDetails example_send_env) []"
    by (simp add: prefixed_stream)
  have f: "map_option history_in
          (first_request (handleIncomingMessage tool_loop_env ''/no_think hi''
               [new_user_message ''u0'' ''/no_think hi'' [], earlier_answer]
               (current_settings example_send_env) (selectedModelDetails example_send_env) [])) =
        Some [new_user_message ''u0'' ''/no_think hi'' [], earlier_answer]"
    using request_history [OF prefixed_stream, of tool_loop_env, THEN conjunct2, THEN mp, OF q] h
    by simp
  have c: "map m_content [new_user_message ''u0'' ''/no_think hi'' [], earlier_answer] =
             [''/no_think hi'', ''hello'']"
    by (simp add: earlier_answer_def new_user_message_def)
  have "map_option (map m_content \<circ> history_in)
     (first_request (the (stream_of tool_loop_env example_send_env prefixed_args prefixed_ui))) =
     Some [''/no_think hi'', ''hello'']"
    unfolding g using f c by (auto simp: map_option_case split: option.splits)
  then show ?thesis
    by (simp add: prefixed_ui_def prefixed_args_def new_user_message_def
        earlier_answer_def new_assistant_message_def)
qed

section \<open>Object identity: toReactiveArray\<close>

text \<open>
  Whether a snapshot shares objects with the builder depends on identity, so the objects
  live in a store here: an address is an index into the heap, and allocation appends.
  A part object points to its \<^verbatim>\<open>tools\<close> or \<^verbatim>\<open>images\<close> array, an array holds the
  addresses of its elements, and a tool object points to its \<^verbatim>\<open>function\<close> object.
\<close>

type_synonym addr = nat

datatype obj =
    Arr "addr list"
  | TextPart part_type string
  | ToolGroupPart string addr
  | ImagePart addr
  | ToolObj int "string option" string addr "string option"
  | FunctionObj string string
  | ImageObj string "string option"

type_synonym heap = "obj list"

definition alloc :: "obj \<Rightarrow> heap \<Rightarrow> heap \<times> addr" where
  "alloc ob h = (h @ [ob], length h)"

fun elements :: "heap \<Rightarrow> addr \<Rightarrow> addr list" where
  "elements h a = (if a < length h then (case h ! a of Arr xs \<Rightarrow> xs | _ \<Rightarrow> []) else [])"

text \<open>
  The callback of \<^verbatim>\<open>this.parts.map\<close>: \<^verbatim>\<open>{ ...part, tools: [...part.tools] }\<close> for a
  tool group, \<^verbatim>\<open>{ ...part, images: [...part.images] }\<close> for an image part,
  \<^verbatim>\<open>{ ...part }\<close> otherwise.  A spread copies the fields, and the elements of an array,
  as they are: the addresses.
\<close>

fun copy_part :: "addr \<Rightarrow> heap \<Rightarrow> heap \<times> addr" where
  "copy_part p h =
     (if p < length h then
        (case h ! p of
           ToolGroupPart k tools \<Rightarrow>
             (case alloc (Arr (elements h tools)) h of
                (h1, tools') \<Rightarrow> alloc (ToolGroupPart k tools') h1)
         | ImagePart images \<Rightarrow>
             (case alloc (Arr (elements h images)) h of
                (h1, images') \<Rightarrow> alloc (ImagePart images') h1)
         | ob \<Rightarrow> alloc ob h)
      else (h, p))"

fun copy_parts :: "addr list \<Rightarrow> heap \<Rightarrow> heap \<times> addr list" where
  "copy_parts [] h = (h, [])"
| "copy_parts (p # ps) h =
     (case copy_part p h of
        (h1, p') \<Rightarrow> (case copy_parts ps h1 of (h2, ps') \<Rightarrow> (h2, p' # ps')))"

text \<open>\<open>toReactiveArray parts h\<close>: \<open>parts\<close> is the address of \<^verbatim>\<open>this.parts\<close>.\<close>

definition toReactiveArray :: "addr \<Rightarrow> heap \<Rightarrow> heap \<times> addr" where
  "toReactiveArray parts h =
     (case copy_parts (elements h parts) h of (h1, ps') \<Rightarrow> alloc (Arr ps') h1)"

text \<open>
  The objects reachable from a parts array: the part objects, their tools and images
  arrays, and the tool and image objects in those.
\<close>

definition part_objects :: "heap \<Rightarrow> addr \<Rightarrow> addr list" where
  "part_objects h parts = elements h parts"

fun part_arrays :: "heap \<Rightarrow> addr \<Rightarrow> addr list" where
  "part_arrays h p =
     (if p < length h then
        (case h ! p of
           ToolGroupPart k tools \<Rightarrow> [tools] | ImagePart images \<Rightarrow> [images] | _ \<Rightarrow> [])
      else [])"

definition inner_arrays :: "heap \<Rightarrow> addr \<Rightarrow> addr list" where
  "inner_arrays h parts = concat (map (part_arrays h) (elements h parts))"

definition item_objects :: "heap \<Rightarrow> addr \<Rightarrow> addr list" where
  "item_objects h parts = concat (map (elements h) (inner_arrays h parts))"

text \<open>
  A builder (its parts array at address 0) with a tool group holding one tool and an
  image part holding one image.
\<close>

definition builder_heap :: heap where
  "builder_heap =
     [Arr [1, 5],
      ToolGroupPart ''function'' 2,
      Arr [3],
      ToolObj 0 (Some ''call_1'') ''function'' 4 None,
      FunctionObj ''search'' ''{}'',
      ImagePart 6,
      Arr [7],
      ImageObj ''data:image/png;base64,AAAA'' None]"

lemma copy_part_extends: "\<exists>ext. fst (copy_part p h) = h @ ext"
  by (auto simp: alloc_def split: obj.splits)

lemma copy_parts_extends: "\<exists>ext. fst (copy_parts ps h) = h @ ext"
proof (induction ps arbitrary: h)
  case Nil
  then show ?case by simp
next
  case (Cons p ps)
  obtain e1 where e1: "fst (copy_part p h) = h @ e1"
    using copy_part_extends by blast
  obtain e2 where e2: "fst (copy_parts ps (h @ e1)) = (h @ e1) @ e2"
    using Cons.IH by blast
  show ?case
    using e1 e2 by (cases "copy_part p h"; cases "copy_parts ps (h @ e1)") auto
qed

text \<open>The call allocates and writes to nothing that existed: the builder's state stays.\<close>

lemma toReactiveArray_keeps_heap:
  "take (length h) (fst (toReactiveArray parts h)) = h"
proof -
  obtain ext where "fst (copy_parts (elements h parts) h) = h @ ext"
    using copy_parts_extends by blast
  then show ?thesis
    by (cases "copy_parts (elements h parts) h") (auto simp: toReactiveArray_def alloc_def)
qed

text \<open>
  C5.  On the builder above the snapshot has new part objects (addresses 9 and 11) and
  new tools and images arrays (8 and 10), and the builder's heap is unchanged; but the
  tool object and the image object in the snapshot are the builder's own (addresses 3
  and 7): they are shared, not copied.
\<close>

theorem snapshot_shares_items:
  "part_objects builder_heap 0 = [1, 5] \<and>
   inner_arrays builder_heap 0 = [2, 6] \<and>
   item_objects builder_heap 0 = [3, 7] \<and>
   part_objects (fst (toReactiveArray 0 builder_heap)) (snd (toReactiveArray 0 builder_heap)) =
     [9, 11] \<and>
   inner_arrays (fst (toReactiveArray 0 builder_heap)) (snd (toReactiveArray 0 builder_heap)) =
     [8, 10] \<and>
   item_objects (fst (toReactiveArray 0 builder_heap)) (snd (toReactiveArray 0 builder_heap)) =
     [3, 7] \<and>
   take (length builder_heap) (fst (toReactiveArray 0 builder_heap)) = builder_heap"
  by (simp add: toReactiveArray_def builder_heap_def alloc_def part_objects_def
      inner_arrays_def item_objects_def)

end
